theory Spec2Isabelle
  imports Main "HOL-Library.Word"
begin

section \<open>go-webapp: access logging and panic recovery around an HTTP handler\<close>

text \<open>
  A shallow embedding of \<^verbatim>\<open>serve.go\<close> (package \<^verbatim>\<open>webapp\<close>). Go strings are byte
  strings and become \<^typ>\<open>string\<close>; Go's \<^verbatim>\<open>int\<close> becomes \<^typ>\<open>int\<close>, \<^verbatim>\<open>uint64\<close> becomes
  \<^typ>\<open>64 word\<close>; a struct becomes a record; a buffered channel becomes a bounded queue
  whose send can block; a panic is an outcome of the handler, not an exception of HOL.
\<close>

subsection \<open>Library functions the file calls\<close>

text \<open>
  \<^verbatim>\<open>strings.LastIndex(s, sep)\<close>: the index of the last place where \<^verbatim>\<open>sep\<close> occurs in
  \<^verbatim>\<open>s\<close>, or \<^verbatim>\<open>-1\<close>. The scan starts at the rightmost position where \<^verbatim>\<open>sep\<close> still
  fits and moves left.
\<close>

fun scan_back :: "string \<Rightarrow> string \<Rightarrow> nat \<Rightarrow> int" where
  "scan_back s sep 0 = (if take (length sep) s = sep then 0 else - 1)"
| "scan_back s sep (Suc i) =
     (if take (length sep) (drop (Suc i) s) = sep then int (Suc i) else scan_back s sep i)"

definition LastIndex :: "string \<Rightarrow> string \<Rightarrow> int" where
  "LastIndex s sep =
     (if length s < length sep then - 1 else scan_back s sep (length s - length sep))"

text \<open>Decimal rendering, as the verb \<^verbatim>\<open>%d\<close> of package \<^verbatim>\<open>fmt\<close> prints integers.\<close>

definition digit_char :: "nat \<Rightarrow> char" where
  "digit_char d = ''0123456789'' ! (d mod 10)"

fun nat_digits :: "nat \<Rightarrow> string" where
  "nat_digits n =
     (if n < 10 then [digit_char n] else nat_digits (n div 10) @ [digit_char (n mod 10)])"

declare nat_digits.simps [simp del]

definition itoa :: "int \<Rightarrow> string" where
  "itoa i = (if i < 0 then CHR ''-'' # nat_digits (nat (- i)) else nat_digits (nat i))"

text \<open>
  The value a panic carries has type \<^verbatim>\<open>interface{}\<close>. Three kinds of dynamic value
  are kept: a string, an \<^verbatim>\<open>error\<close> (represented by the text of its \<^verbatim>\<open>Error()\<close>, which is
  what a run-time error is too) and an integer. \<open>fmt_v\<close> is the verb \<^verbatim>\<open>%v\<close> on them.
  The value of a panic is never \<^verbatim>\<open>nil\<close>: since Go 1.21 \<^verbatim>\<open>panic(nil)\<close> panics with a
  run-time error instead.
\<close>

datatype any_value = AnyString string | AnyError string | AnyInt int

fun fmt_v :: "any_value \<Rightarrow> string" where
  "fmt_v (AnyString s) = s"
| "fmt_v (AnyError m) = m"
| "fmt_v (AnyInt i) = itoa i"

text \<open>
  \<^verbatim>\<open>fmt.Sprintf\<close> for the verbs the file uses: \<^verbatim>\<open>%s\<close> on a string, \<^verbatim>\<open>%d\<close> on an
  \<^verbatim>\<open>int\<close>, an \<^verbatim>\<open>int64\<close> or a \<^verbatim>\<open>uint64\<close>, \<^verbatim>\<open>%v\<close> on any operand, and \<^verbatim>\<open>%%\<close>. A verb with
  no operand left prints \<^verbatim>\<open>%!x(MISSING)\<close> as Go does; a verb applied to an operand of
  another kind, which the file never does, prints a marker.
\<close>

datatype arg = ArgString string | ArgInt int | ArgUint64 "64 word" | ArgAny any_value

fun render :: "char \<Rightarrow> arg \<Rightarrow> string" where
  "render v (ArgString s) =
     (if v = CHR ''s'' \<or> v = CHR ''v'' then s else ''%!'' @ [v] @ ''(BADVERB)'')"
| "render v (ArgInt i) =
     (if v = CHR ''d'' \<or> v = CHR ''v'' then itoa i else ''%!'' @ [v] @ ''(BADVERB)'')"
| "render v (ArgUint64 w) =
     (if v = CHR ''d'' \<or> v = CHR ''v'' then nat_digits (unat w) else ''%!'' @ [v] @ ''(BADVERB)'')"
| "render v (ArgAny a) =
     (if v = CHR ''v'' then fmt_v a else ''%!'' @ [v] @ ''(BADVERB)'')"

fun Sprintf :: "string \<Rightarrow> arg list \<Rightarrow> string" where
  "Sprintf [] args = []"
| "Sprintf (c # cs) args =
     (if c = CHR ''%'' then
        (case cs of
           [] \<Rightarrow> ''%!(NOVERB)''
         | v # rest \<Rightarrow>
             (if v = CHR ''%'' then CHR ''%'' # Sprintf rest args
              else (case args of
                      [] \<Rightarrow> ''%!'' @ [v] @ ''(MISSING)'' @ Sprintf rest []
                    | a # as \<Rightarrow> render v a @ Sprintf rest as)))
      else c # Sprintf cs args)"

declare Sprintf.simps [simp del]

subsection \<open>Time\<close>

text \<open>
  A \<^verbatim>\<open>time.Time\<close> is an instant with a location. The model keeps the instant as
  nanoseconds since the Unix epoch, the reading of the monotonic clock when the value has
  one (as a value returned by \<^verbatim>\<open>time.Now\<close> has), and the offset of the location at that
  instant in seconds east of UTC.
\<close>

record Time =
  wall_ns :: int
  mono_ns :: "int option"
  zone_offset :: int

text \<open>Go's integer division truncates towards zero; HOL's \<open>div\<close> rounds down.\<close>

definition go_quot :: "int \<Rightarrow> int \<Rightarrow> int" where
  "go_quot a b = sgn a * sgn b * (\<bar>a\<bar> div \<bar>b\<bar>)"

definition go_rem :: "int \<Rightarrow> int \<Rightarrow> int" where
  "go_rem a b = a - b * go_quot a b"

text \<open>
  \<^verbatim>\<open>t.Sub(u)\<close> is a \<^verbatim>\<open>Duration\<close>, a count of nanoseconds in an \<^verbatim>\<open>int64\<close>: the
  difference of the monotonic readings when both values have one, of the instants
  otherwise, and the largest or smallest \<^verbatim>\<open>Duration\<close> when the difference does not fit.
  \<^verbatim>\<open>Nanoseconds\<close> reads the count.
\<close>

definition saturate64 :: "int \<Rightarrow> int" where
  "saturate64 d = max (- (2 ^ 63)) (min (2 ^ 63 - 1) d)"

definition Sub :: "Time \<Rightarrow> Time \<Rightarrow> int" where
  "Sub t u =
     (case (mono_ns t, mono_ns u) of
        (Some a, Some b) \<Rightarrow> saturate64 (a - b)
      | _ \<Rightarrow> saturate64 (wall_ns t - wall_ns u))"

definition Nanoseconds :: "int \<Rightarrow> int" where
  "Nanoseconds d = d"

text \<open>
  The calendar date of a day number (days since 1 January 1970) in the proleptic
  Gregorian calendar, which is the calendar of \<^verbatim>\<open>time.Time\<close>: year, month (1 to 12) and
  day of the month.
\<close>

definition civil_from_days :: "int \<Rightarrow> int \<times> int \<times> int" where
  "civil_from_days days =
     (let z = days + 719468;
          era = z div 146097;
          doe = z mod 146097;
          yoe = (doe - doe div 1460 + doe div 36524 - doe div 146096) div 365;
          doy = doe - (365 * yoe + yoe div 4 - yoe div 100);
          mp = (5 * doy + 2) div 153;
          d = doy - (153 * mp + 2) div 5 + 1;
          m = (if mp < 10 then mp + 3 else mp - 9);
          y = yoe + era * 400
      in ((if m \<le> 2 then y + 1 else y), m, d))"

record civil =
  c_year :: int
  c_month :: int
  c_day :: int
  c_hour :: int
  c_minute :: int
  c_second :: int
  c_offset :: int

definition civil_of :: "Time \<Rightarrow> civil" where
  "civil_of t =
     (let secs = wall_ns t div 1000000000 + zone_offset t;
          sod = secs mod 86400;
          (y, m, d) = civil_from_days (secs div 86400)
      in \<lparr>c_year = y, c_month = m, c_day = d, c_hour = sod div 3600,
          c_minute = (sod mod 3600) div 60, c_second = sod mod 60,
          c_offset = zone_offset t\<rparr>)"

text \<open>\<^verbatim>\<open>appendInt\<close> of package \<^verbatim>\<open>time\<close>: decimal, zero-padded to a width, sign first.\<close>

definition appendInt :: "int \<Rightarrow> nat \<Rightarrow> string" where
  "appendInt x w =
     (let ds = nat_digits (nat \<bar>x\<bar>)
      in (if x < 0 then ''-'' else []) @ replicate (w - length ds) CHR ''0'' @ ds)"

definition month_abbr :: "int \<Rightarrow> string" where
  "month_abbr m =
     [''Jan'', ''Feb'', ''Mar'', ''Apr'', ''May'', ''Jun'',
      ''Jul'', ''Aug'', ''Sep'', ''Oct'', ''Nov'', ''Dec''] ! nat (m - 1)"

definition num_zone :: "int \<Rightarrow> string" where
  "num_zone offset =
     (let zone = go_quot offset 60
      in (if zone < 0 then ''-'' else ''+'') @
         appendInt (go_quot \<bar>zone\<bar> 60) 2 @ appendInt (go_rem \<bar>zone\<bar> 60) 2)"

definition starts_with :: "string \<Rightarrow> string \<Rightarrow> bool" where
  "starts_with p s = (take (length p) s = p)"

text \<open>
  \<^verbatim>\<open>Time.Format\<close> reads its layout from left to right and replaces each element of the
  reference time by the matching field. The elements interpreted here are those of the
  one layout the file has: \<^verbatim>\<open>02\<close> (day), \<^verbatim>\<open>Jan\<close> (month name), \<^verbatim>\<open>2006\<close> (year),
  \<^verbatim>\<open>15\<close> (hour), \<^verbatim>\<open>04\<close> (minute), \<^verbatim>\<open>05\<close> (second) and \<^verbatim>\<open>-0700\<close> (numeric zone);
  every other byte is copied.
\<close>

function format_layout :: "civil \<Rightarrow> string \<Rightarrow> string" where
  "format_layout c [] = []"
| "format_layout c (x # xs) =
     (if starts_with ''Jan'' (x # xs) then month_abbr (c_month c) @ format_layout c (drop 2 xs)
      else if starts_with ''2006'' (x # xs) then appendInt (c_year c) 4 @ format_layout c (drop 3 xs)
      else if starts_with ''-0700'' (x # xs) then num_zone (c_offset c) @ format_layout c (drop 4 xs)
      else if starts_with ''02'' (x # xs) then appendInt (c_day c) 2 @ format_layout c (drop 1 xs)
      else if starts_with ''15'' (x # xs) then appendInt (c_hour c) 2 @ format_layout c (drop 1 xs)
      else if starts_with ''04'' (x # xs) then appendInt (c_minute c) 2 @ format_layout c (drop 1 xs)
      else if starts_with ''05'' (x # xs) then appendInt (c_second c) 2 @ format_layout c (drop 1 xs)
      else x # format_layout c xs)"
  by pat_completeness auto
termination
  by (relation "measure (\<lambda>(c, l). length l)") auto

declare format_layout.simps [simp del]

definition Format :: "Time \<Rightarrow> string \<Rightarrow> string" where
  "Format t layout = format_layout (civil_of t) layout"

definition ApacheTime :: string where
  "ApacheTime = ''02/Jan/2006:15:04:05 -0700''"

subsection \<open>The log record\<close>

text \<open>
  \<^verbatim>\<open>LogRecord\<close> embeds an \<^verbatim>\<open>http.ResponseWriter\<close>, an interface value. The model keeps
  the state of the wrapped writer, of any type \<open>'w\<close>, in the record, and passes the
  writer's methods beside it: \<^verbatim>\<open>Write\<close> returns the count of bytes it reports, an
  error (\<open>None\<close> for \<^verbatim>\<open>nil\<close>) and the writer's new state. \<^verbatim>\<open>Header\<close>, which the
  record promotes unchanged from the wrapped writer, touches no field of the record and
  is left out.
\<close>

record 'w writer_impl =
  impl_Write :: "'w \<Rightarrow> string \<Rightarrow> (int \<times> string option) \<times> 'w"
  impl_WriteHeader :: "'w \<Rightarrow> int \<Rightarrow> 'w"

record 'w LogRecord =
  ResponseWriter :: 'w
  Host :: string
  Indent :: string
  RequestStarted :: Time
  RequestCompleted :: Time
  Request :: string
  Status :: int
  Bytes :: "64 word"
  Referer :: string
  UserAgent :: string

text \<open>
  \<^verbatim>\<open>rec.Bytes += uint64(n)\<close>: the conversion of an \<^verbatim>\<open>int\<close> to \<^verbatim>\<open>uint64\<close> keeps the value
  modulo \<open>2 ^ 64\<close>, and so does the addition.
\<close>

definition Write :: "'w writer_impl \<Rightarrow> 'w LogRecord \<Rightarrow> string \<Rightarrow> (int \<times> string option) \<times> 'w LogRecord" where
  "Write W rec p =
     (let ((n, err), w') = impl_Write W (ResponseWriter rec) p
      in ((n, err), rec\<lparr>ResponseWriter := w', Bytes := Bytes rec + word_of_int n\<rparr>))"

definition WriteHeader :: "'w writer_impl \<Rightarrow> 'w LogRecord \<Rightarrow> int \<Rightarrow> 'w LogRecord" where
  "WriteHeader W rec status =
     rec\<lparr>Status := status, ResponseWriter := impl_WriteHeader W (ResponseWriter rec) status\<rparr>"

text \<open>
  \<^verbatim>\<open>fmt.Fprint\<close> and \<^verbatim>\<open>fmt.Fprintf\<close> build the whole text and hand it to the writer in one
  call of \<^verbatim>\<open>Write\<close>; \<^verbatim>\<open>Fprint\<close> of a single string is that string.
\<close>

definition Fprint :: "'w writer_impl \<Rightarrow> 'w LogRecord \<Rightarrow> string \<Rightarrow> (int \<times> string option) \<times> 'w LogRecord" where
  "Fprint W rec s = Write W rec s"

definition Fprintf :: "'w writer_impl \<Rightarrow> 'w LogRecord \<Rightarrow> string \<Rightarrow> arg list \<Rightarrow> (int \<times> string option) \<times> 'w LogRecord" where
  "Fprintf W rec format args = Write W rec (Sprintf format args)"

subsection \<open>Formatters\<close>

definition CombinedFormat :: "'w LogRecord \<Rightarrow> string" where
  \<open>CombinedFormat rec =
     Sprintf ''%s - %s [%s] "%s" %d %d "%s" "%s"''
       [ArgString (Host rec), ArgString (Indent rec),
        ArgString (Format (RequestStarted rec) ApacheTime),
        ArgString (Request rec), ArgInt (Status rec), ArgUint64 (Bytes rec),
        ArgString (Referer rec), ArgString (UserAgent rec)]\<close>

definition PerfFormat :: "'w LogRecord \<Rightarrow> string" where
  \<open>PerfFormat rec =
     Sprintf ''%s - %s [%s] "%s" %d %d %dms''
       [ArgString (Host rec), ArgString (Indent rec),
        ArgString (Format (RequestStarted rec) ApacheTime),
        ArgString (Request rec), ArgInt (Status rec), ArgUint64 (Bytes rec),
        ArgInt (go_quot (Nanoseconds (Sub (RequestCompleted rec) (RequestStarted rec))) 1000000)]\<close>

subsection \<open>Channels\<close>

text \<open>
  A buffered channel is a queue with a capacity. A send on a full channel does not
  complete: the sending goroutine is suspended, which the model shows as \<open>None\<close>, with
  the channel as it was. A receive on an empty channel is suspended in the same way.
\<close>

record 'a chan =
  chan_cap :: nat
  chan_buf :: "'a list"

definition make_chan :: "nat \<Rightarrow> 'a chan" where
  "make_chan n = \<lparr>chan_cap = n, chan_buf = []\<rparr>"

definition chan_send :: "'a chan \<Rightarrow> 'a \<Rightarrow> 'a chan option" where
  "chan_send ch x =
     (if length (chan_buf ch) < chan_cap ch then Some (ch\<lparr>chan_buf := chan_buf ch @ [x]\<rparr>)
      else None)"

definition chan_recv :: "'a chan \<Rightarrow> ('a \<times> 'a chan) option" where
  "chan_recv ch =
     (case chan_buf ch of [] \<Rightarrow> None | x # xs \<Rightarrow> Some (x, ch\<lparr>chan_buf := xs\<rparr>))"

subsection \<open>The request and the handler\<close>

record http_Request =
  Method :: string
  RequestURI :: string
  Proto :: string
  RemoteAddr :: string
  Header :: "string \<rightharpoonup> string list"

definition Header_Get :: "(string \<rightharpoonup> string list) \<Rightarrow> string \<Rightarrow> string" where
  "Header_Get h k = (case h k of Some (v # _) \<Rightarrow> v | _ \<Rightarrow> [])"

definition Request_Referer :: "http_Request \<Rightarrow> string" where
  "Request_Referer r = Header_Get (Header r) ''Referer''"

definition Request_UserAgent :: "http_Request \<Rightarrow> string" where
  "Request_UserAgent r = Header_Get (Header r) ''User-Agent''"

text \<open>
  The wrapped handler is code of the application. What it does to the record it does
  through the two methods of the writer it is given, so a run of the handler is a tree:
  it returns, it panics with a value, it sets a status and goes on, or it writes and goes
  on in a way that may depend on what the write returned.
\<close>

datatype handler_run =
    Return
  | Panic any_value
  | CallWrite string "int \<times> string option \<Rightarrow> handler_run"
  | CallWriteHeader int handler_run

type_synonym HandlerFunc = "http_Request \<Rightarrow> handler_run"

text \<open>
  Running the handler against the record. The first component of the result is what
  \<^verbatim>\<open>recover()\<close> gives in a deferred call afterwards: \<open>None\<close> (\<^verbatim>\<open>nil\<close>) when the handler
  returned, the value of the panic otherwise.
\<close>

primrec run_handler :: "'w writer_impl \<Rightarrow> handler_run \<Rightarrow> 'w LogRecord \<Rightarrow> any_value option \<times> 'w LogRecord" where
  "run_handler W Return rec = (None, rec)"
| "run_handler W (Panic e) rec = (Some e, rec)"
| "run_handler W (CallWrite p k) rec =
     (let (res, rec') = Write W rec p in run_handler W (k res) rec')"
| "run_handler W (CallWriteHeader status h) rec = run_handler W h (WriteHeader W rec status)"

subsection \<open>The application\<close>

record 'w App =
  StackIn500 :: bool
  StackInLog :: bool
  Handler :: HandlerFunc
  Errors :: "string chan option"
  Loggers :: "'w LogRecord chan list"

definition NewApp :: "HandlerFunc \<Rightarrow> bool \<Rightarrow> 'w App" where
  "NewApp h detailed_stacks =
     \<lparr>StackIn500 = detailed_stacks, StackInLog = detailed_stacks, Handler = h,
      Errors = None, Loggers = []\<rparr>"

definition errorPageShort :: string where
  "errorPageShort = ''<html><body><h1>500 Internal server error</h1></body></html>''"

definition errorPageDetailed :: string where
  "errorPageDetailed = ''<html><body><h1>500 Internal server error</h1><p>A runtime error has just happened:</p><ul><li>%v</li></ul><p>Stack trace of the problem:</p><pre>%s</pre></body></html>''"

text \<open>
  What the file takes from outside: the helpers \<^verbatim>\<open>Stack\<close> and \<^verbatim>\<open>where\<close> of the package,
  which are defined in another file and describe the call stack of the running goroutine
  (the text of the stack trace, the location of a frame), and the clock: \<open>clock k\<close> is
  what the \<open>k\<close>-th call of \<^verbatim>\<open>time.Now\<close> returns.
\<close>

record runtime =
  Stack :: "int \<Rightarrow> string"
  where_at :: "int \<Rightarrow> string"
  clock :: "nat \<Rightarrow> Time"

text \<open>
  The state a request runs in: the application with its channels, the record of the
  request, the number of calls of \<^verbatim>\<open>time.Now\<close> made so far, and whether the goroutine of
  the request is suspended in a send on a full channel.
\<close>

record 'w run_state =
  the_app :: "'w App"
  the_rec :: "'w LogRecord"
  now_calls :: nat
  blocked :: bool

text \<open>
  \<^verbatim>\<open>HandlePanic\<close> runs as a deferred call. Its argument \<open>e\<close> is the result of
  \<^verbatim>\<open>recover()\<close>; the writer it is given is the record.
\<close>

definition HandlePanic :: "'w writer_impl \<Rightarrow> runtime \<Rightarrow> any_value option \<Rightarrow> 'w run_state \<Rightarrow> 'w run_state" where
  "HandlePanic W rt e st =
     (case e of
        None \<Rightarrow> st
      | Some v \<Rightarrow>
          (let app = the_app st;
               rec1 = WriteHeader W (the_rec st) 500;
               (_, rec2) =
                  (if StackIn500 app
                   then Fprintf W rec1 errorPageDetailed [ArgAny v, ArgString (Stack rt 2)]
                   else Fprint W rec1 errorPageShort);
               st1 = st\<lparr>the_rec := rec2\<rparr>
           in (case Errors app of
                 None \<Rightarrow> st1
               | Some ch \<Rightarrow>
                   (let msg =
                          (if StackInLog app
                           then Sprintf ''[%s] [panic] %v [at %s]\<newline>%s''
                                  [ArgString (Format (clock rt (now_calls st)) ApacheTime),
                                   ArgAny v, ArgString (where_at rt 2), ArgString (Stack rt 2)]
                           else Sprintf ''[%s] [panic] %v [at %s]''
                                  [ArgString (Format (clock rt (now_calls st)) ApacheTime),
                                   ArgAny v, ArgString (where_at rt 2)]);
                        st2 = st1\<lparr>now_calls := Suc (now_calls st)\<rparr>
                    in (case chan_send ch msg of
                          None \<Rightarrow> st2\<lparr>blocked := True\<rparr>
                        | Some ch' \<Rightarrow> st2\<lparr>the_app := app\<lparr>Errors := Some ch'\<rparr>\<rparr>)))))"

text \<open>The fan-out loop \<^verbatim>\<open>for _, logger := range app.Loggers { logger <- rec }\<close>.\<close>

fun send_all :: "'a chan list \<Rightarrow> 'a \<Rightarrow> 'a chan list \<times> bool" where
  "send_all [] x = ([], False)"
| "send_all (ch # chs) x =
     (case chan_send ch x of
        None \<Rightarrow> (ch # chs, True)
      | Some ch' \<Rightarrow> (let (chs', b) = send_all chs x in (ch' # chs', b)))"

definition zero_Time :: Time where
  "zero_Time = \<lparr>wall_ns = - 62135596800 * 1000000000, mono_ns = None, zone_offset = 0\<rparr>"

definition remote_host :: "string \<Rightarrow> string" where
  "remote_host addr =
     (let n = LastIndex addr '':'' in if n \<noteq> - 1 then take (nat n) addr else addr)"

definition new_record :: "runtime \<Rightarrow> nat \<Rightarrow> 'w \<Rightarrow> http_Request \<Rightarrow> 'w LogRecord" where
  "new_record rt k w r =
     \<lparr>ResponseWriter = w, Host = remote_host (RemoteAddr r), Indent = ''-'',
      RequestStarted = clock rt k, RequestCompleted = zero_Time,
      Request = Method r @ '' '' @ RequestURI r @ '' '' @ Proto r,
      Status = 200, Bytes = 0,
      Referer = Request_Referer r, UserAgent = Request_UserAgent r\<rparr>"

text \<open>
  \<^verbatim>\<open>ServeHTTP\<close>. The deferred \<^verbatim>\<open>HandlePanic\<close> runs when the function leaves: after the
  loop when the handler returned, and at once when the handler panicked. In the second
  case \<^verbatim>\<open>recover\<close> stops the panic and \<^verbatim>\<open>ServeHTTP\<close> returns to its caller: the
  statements after the call of the handler are not run.
\<close>

definition ServeHTTP :: "'w writer_impl \<Rightarrow> runtime \<Rightarrow> 'w App \<Rightarrow> nat \<Rightarrow> 'w \<Rightarrow> http_Request \<Rightarrow> 'w run_state" where
  "ServeHTTP W rt app k w r =
     (let rec0 = new_record rt k w r;
          (e, rec1) = run_handler W (Handler app r) rec0
      in (case e of
            Some v \<Rightarrow>
              HandlePanic W rt (Some v)
                \<lparr>the_app = app, the_rec = rec1, now_calls = Suc k, blocked = False\<rparr>
          | None \<Rightarrow>
              (let rec2 = rec1\<lparr>RequestCompleted := clock rt (Suc k)\<rparr>;
                   (loggers, b) = send_all (Loggers app) rec2;
                   st = \<lparr>the_app = app\<lparr>Loggers := loggers\<rparr>, the_rec = rec2,
                         now_calls = Suc (Suc k), blocked = b\<rparr>
               in if b then st else HandlePanic W rt None st)))"

text \<open>
  \<^verbatim>\<open>AddLogger\<close> makes a channel of capacity 1000, appends it to the loggers and starts a
  goroutine that receives from it for ever and prints each record, formatted, to its
  logger. The goroutine is returned as a sink; \<open>sink_step\<close> is one turn of its loop,
  \<open>None\<close> while there is nothing to receive.
\<close>

record 'w sink =
  sink_format :: "'w LogRecord \<Rightarrow> string"
  sink_printed :: "string list"

definition AddLogger :: "'w App \<Rightarrow> ('w LogRecord \<Rightarrow> string) \<Rightarrow> string list \<Rightarrow> 'w App \<times> 'w sink" where
  "AddLogger app f lg =
     (let ch = make_chan 1000
      in (app\<lparr>Loggers := Loggers app @ [ch]\<rparr>, \<lparr>sink_format = f, sink_printed = lg\<rparr>))"

definition sink_step :: "'w LogRecord chan \<times> 'w sink \<Rightarrow> ('w LogRecord chan \<times> 'w sink) option" where
  "sink_step cs =
     (case chan_recv (fst cs) of
        None \<Rightarrow> None
      | Some (rec, ch') \<Rightarrow>
          Some (ch', (snd cs)\<lparr>sink_printed := sink_printed (snd cs) @ [sink_format (snd cs) rec]\<rparr>))"

text \<open>
  \<^verbatim>\<open>ErrorLogger\<close> makes the error channel, of capacity 1000 too. Its goroutine takes the
  reports from the channel and prints them; nothing below depends on what it prints.
\<close>

definition ErrorLogger :: "'w App \<Rightarrow> 'w App" where
  "ErrorLogger app = app\<lparr>Errors := Some (make_chan 1000)\<rparr>"

subsection \<open>What a run of the handler does to the wrapped writer\<close>

text \<open>
  Three readings of a run of the handler against the wrapped writer itself, from the state
  \<open>w\<close> of the writer: the counts the writer reports for the writes, in order; the
  lengths of the data of those writes; and the statuses passed to \<^verbatim>\<open>WriteHeader\<close>. They are
  what the fields of the record are compared with below; no function of the program uses
  them.
\<close>

primrec reported_counts :: "'w writer_impl \<Rightarrow> handler_run \<Rightarrow> 'w \<Rightarrow> int list" where
  "reported_counts W Return w = []"
| "reported_counts W (Panic e) w = []"
| "reported_counts W (CallWrite p k) w =
     (let (res, w') = impl_Write W w p in fst res # reported_counts W (k res) w')"
| "reported_counts W (CallWriteHeader status h) w =
     reported_counts W h (impl_WriteHeader W w status)"

primrec written_sizes :: "'w writer_impl \<Rightarrow> handler_run \<Rightarrow> 'w \<Rightarrow> nat list" where
  "written_sizes W Return w = []"
| "written_sizes W (Panic e) w = []"
| "written_sizes W (CallWrite p k) w =
     (let (res, w') = impl_Write W w p in length p # written_sizes W (k res) w')"
| "written_sizes W (CallWriteHeader status h) w =
     written_sizes W h (impl_WriteHeader W w status)"

primrec statuses_set :: "'w writer_impl \<Rightarrow> handler_run \<Rightarrow> 'w \<Rightarrow> int list" where
  "statuses_set W Return w = []"
| "statuses_set W (Panic e) w = []"
| "statuses_set W (CallWrite p k) w =
     (let (res, w') = impl_Write W w p in statuses_set W (k res) w')"
| "statuses_set W (CallWriteHeader status h) w =
     status # statuses_set W h (impl_WriteHeader W w status)"

text \<open>
  The counts the wrapped writer reports for the writes of the panic guard, from the state
  \<open>w\<close> in which the handler left the writer: none when \<^verbatim>\<open>recover()\<close> gave \<^verbatim>\<open>nil\<close>, and
  the count for the page otherwise.
\<close>

definition guard_counts :: "'w writer_impl \<Rightarrow> runtime \<Rightarrow> 'w App \<Rightarrow> any_value option \<Rightarrow> 'w \<Rightarrow> int list" where
  "guard_counts W rt app e w =
     (case e of
        None \<Rightarrow> []
      | Some v \<Rightarrow>
          [fst (fst (impl_Write W (impl_WriteHeader W w 500)
             (if StackIn500 app
              then Sprintf errorPageDetailed [ArgAny v, ArgString (Stack rt 2)]
              else errorPageShort)))])"

text \<open>
  \<open>n\<close> requests served one after the other, while no sink takes anything from its
  queue: the state of the application after them. A request whose handler returns reads
  the clock twice.
\<close>

primrec serve_n :: "'w writer_impl \<Rightarrow> runtime \<Rightarrow> 'w \<Rightarrow> http_Request \<Rightarrow> nat \<Rightarrow> 'w App \<Rightarrow> 'w App" where
  "serve_n W rt w r 0 app = app"
| "serve_n W rt w r (Suc n) app =
     the_app (ServeHTTP W rt (serve_n W rt w r n app) (2 * n) w r)"

subsection \<open>A writer for the examples\<close>

text \<open>
  A response writer that keeps the response in memory: the status that reached the client
  (the first one set, or 200 when a write comes first) and the body. It takes every byte
  and reports no error.
\<close>

definition mem_writer :: "(int option \<times> string) writer_impl" where
  "mem_writer =
     \<lparr>impl_Write = (\<lambda>(c, body) p.
        ((int (length p), None), ((case c of None \<Rightarrow> Some 200 | Some s \<Rightarrow> Some s), body @ p))),
      impl_WriteHeader = (\<lambda>(c, body) s.
        ((case c of None \<Rightarrow> Some s | Some s' \<Rightarrow> Some s'), body))\<rparr>"

text \<open>
  A runtime and a request for the examples: the clock advances by 2.5 milliseconds at
  each reading, in a zone one hour east of UTC.
\<close>

definition example_runtime :: runtime where
  "example_runtime =
     \<lparr>Stack = (\<lambda>skip. ''goroutine 7 [running]''),
      where_at = (\<lambda>skip. ''handler.go:42''),
      clock = (\<lambda>k. \<lparr>wall_ns = 1330833967000000000 + int k * 2500000,
                      mono_ns = Some (int k * 2500000), zone_offset = 3600\<rparr>)\<rparr>"

definition example_request :: http_Request where
  "example_request =
     \<lparr>Method = ''GET'', RequestURI = ''/x'', Proto = ''HTTP/1.1'',
      RemoteAddr = ''10.0.0.1:4711'',
      Header = [''Referer'' \<mapsto> [''-''], ''User-Agent'' \<mapsto> [''test-agent'']]\<rparr>"

definition panicking_handler :: HandlerFunc where
  "panicking_handler r = CallWrite ''partial'' (\<lambda>res. Panic (AnyString ''boom''))"

definition hello_handler :: HandlerFunc where
  "hello_handler r = CallWrite ''hello '' (\<lambda>res. CallWrite ''world'' (\<lambda>res. Return))"

definition example_record :: "unit LogRecord" where
  "example_record =
     \<lparr>ResponseWriter = (), Host = ''10.0.0.1'', Indent = ''-'',
      RequestStarted = clock example_runtime 0, RequestCompleted = clock example_runtime 1,
      Request = ''GET /x HTTP/1.1'', Status = 200, Bytes = 512,
      Referer = ''-'', UserAgent = ''test-agent''\<rparr>"

section \<open>Properties\<close>

subsection \<open>The host of the remote address\<close>

lemma take1_drop: "(take (Suc 0) (drop i s) = [c]) = (i < length s \<and> s ! i = c)"
proof (cases "i < length s")
  case True
  then have "drop i s = s ! i # drop (Suc i) s" by (simp add: Cons_nth_drop_Suc)
  then show ?thesis using True by simp
next
  case False
  then show ?thesis by simp
qed

lemma scan_back_none:
  "(scan_back s [c] i = - 1) = (\<forall>j\<le>i. \<not> (j < length s \<and> s ! j = c))"
proof (induction i)
  case 0
  show ?case using take1_drop [of 0 s c] by simp
next
  case (Suc i)
  show ?case using Suc.IH take1_drop [of "Suc i" s c]
    by (auto simp: le_Suc_eq)
qed

lemma scan_back_found:
  "scan_back s [c] i \<noteq> - 1 \<Longrightarrow>
   \<exists>n. scan_back s [c] i = int n \<and> n \<le> i \<and> n < length s \<and> s ! n = c \<and>
       (\<forall>j. n < j \<and> j \<le> i \<longrightarrow> \<not> (j < length s \<and> s ! j = c))"
proof (induction i)
  case 0
  then show ?case using take1_drop [of 0 s c] by (auto split: if_splits)
next
  case (Suc i)
  show ?case
  proof (cases "take (Suc 0) (drop (Suc i) s) = [c]")
    case True
    then have "scan_back s [c] (Suc i) = int (Suc i)" by simp
    moreover from True have "Suc i < length s \<and> s ! Suc i = c"
      using take1_drop [of "Suc i" s c] by simp
    ultimately show ?thesis by (intro exI [of _ "Suc i"]) auto
  next
    case False
    with Suc.prems have "scan_back s [c] i \<noteq> - 1" by simp
    from Suc.IH [OF this] obtain n where n: "scan_back s [c] i = int n" "n \<le> i" "n < length s"
      "s ! n = c" "\<forall>j. n < j \<and> j \<le> i \<longrightarrow> \<not> (j < length s \<and> s ! j = c)" by blast
    have "\<not> (Suc i < length s \<and> s ! Suc i = c)" using False take1_drop [of "Suc i" s c] by simp
    with n False show ?thesis by (auto simp: le_Suc_eq)
  qed
qed

lemma LastIndex_none: "(LastIndex s [c] = - 1) = (c \<notin> set s)"
proof (cases s)
  case Nil
  then show ?thesis by (simp add: LastIndex_def)
next
  case (Cons a as)
  then have "LastIndex s [c] = scan_back s [c] (length s - 1)" by (simp add: LastIndex_def)
  moreover have "(\<forall>j\<le>length s - 1. \<not> (j < length s \<and> s ! j = c)) = (c \<notin> set s)"
  proof
    assume a: "\<forall>j\<le>length s - 1. \<not> (j < length s \<and> s ! j = c)"
    show "c \<notin> set s"
    proof
      assume "c \<in> set s"
      then obtain i where "i < length s" "s ! i = c" by (auto simp: in_set_conv_nth)
      moreover from this have "i \<le> length s - 1" by simp
      ultimately show False using a by blast
    qed
  next
    assume "c \<notin> set s"
    then show "\<forall>j\<le>length s - 1. \<not> (j < length s \<and> s ! j = c)" by auto
  qed
  ultimately show ?thesis by (simp add: scan_back_none)
qed

lemma LastIndex_found:
  assumes "c \<in> set s"
  shows "\<exists>n. LastIndex s [c] = int n \<and> n < length s \<and> s ! n = c \<and> c \<notin> set (drop (Suc n) s)"
proof -
  from assms have ne: "s \<noteq> []" by auto
  then have eq: "LastIndex s [c] = scan_back s [c] (length s - 1)"
    by (cases s) (simp_all add: LastIndex_def)
  from assms have "LastIndex s [c] \<noteq> - 1" by (simp add: LastIndex_none)
  with eq have "scan_back s [c] (length s - 1) \<noteq> - 1" by simp
  from scan_back_found [OF this] obtain n where n: "scan_back s [c] (length s - 1) = int n"
    "n < length s" "s ! n = c"
    "\<forall>j. n < j \<and> j \<le> length s - 1 \<longrightarrow> \<not> (j < length s \<and> s ! j = c)" by blast
  have "c \<notin> set (drop (Suc n) s)"
  proof
    assume "c \<in> set (drop (Suc n) s)"
    then obtain i where i: "i < length (drop (Suc n) s)" "drop (Suc n) s ! i = c"
      by (auto simp: in_set_conv_nth)
    then have "Suc n + i < length s" "s ! (Suc n + i) = c" by auto
    with n(4) show False by auto
  qed
  with n eq show ?thesis by auto
qed

lemma remote_host_no_colon: "CHR '':'' \<notin> set addr \<Longrightarrow> remote_host addr = addr"
  using LastIndex_none [of addr "CHR '':''"] by (simp add: remote_host_def)

lemma remote_host_colon:
  assumes "CHR '':'' \<in> set addr"
  shows "\<exists>port. addr = remote_host addr @ CHR '':'' # port \<and> CHR '':'' \<notin> set port"
proof -
  from LastIndex_found [OF assms] obtain n where n: "LastIndex addr '':'' = int n"
    "n < length addr" "addr ! n = CHR '':''" "CHR '':'' \<notin> set (drop (Suc n) addr)" by blast
  have "remote_host addr = take n addr" using n(1) by (simp add: remote_host_def)
  moreover have "addr = take n addr @ addr ! n # drop (Suc n) addr"
    using n(2) by (simp add: id_take_nth_drop)
  ultimately show ?thesis using n(3,4) by metis
qed

text \<open>Neither the handler nor the panic guard changes the host of the record.\<close>

lemma Host_Write: "Host (snd (Write W rec p)) = Host rec"
  by (simp add: Write_def split: prod.splits)

lemma Host_run_handler: "Host (snd (run_handler W h rec)) = Host rec"
proof (induction h arbitrary: rec)
  case (CallWrite p k)
  obtain res rec' where w: "Write W rec p = (res, rec')" by (cases "Write W rec p")
  have "Host rec' = Host rec" using Host_Write [of W rec p] w by simp
  with CallWrite [of "k res" rec'] w show ?case by simp
next
  case (CallWriteHeader s h)
  then show ?case by (simp add: WriteHeader_def)
qed simp_all

lemma HandlePanic_None: "HandlePanic W rt None st = st"
  by (simp add: HandlePanic_def)

lemma HandlePanic_rec:
  "the_rec (HandlePanic W rt (Some v) st) =
     snd (Write W (WriteHeader W (the_rec st) 500)
            (if StackIn500 (the_app st)
             then Sprintf errorPageDetailed [ArgAny v, ArgString (Stack rt 2)]
             else errorPageShort))"
  by (simp add: HandlePanic_def Let_def Fprint_def Fprintf_def split: option.splits prod.splits)

lemma Host_HandlePanic: "Host (the_rec (HandlePanic W rt e st)) = Host (the_rec st)"
proof (cases e)
  case None
  then show ?thesis by (simp add: HandlePanic_None)
next
  case (Some v)
  then show ?thesis by (simp add: HandlePanic_rec Host_Write WriteHeader_def)
qed

lemma Host_ServeHTTP:
  "Host (the_rec (ServeHTTP W rt app k w r)) = remote_host (RemoteAddr r)"
proof -
  obtain e rec1 where rh: "run_handler W (Handler app r) (new_record rt k w r) = (e, rec1)"
    by (cases "run_handler W (Handler app r) (new_record rt k w r)")
  have "Host rec1 = remote_host (RemoteAddr r)"
    using Host_run_handler [of W "Handler app r" "new_record rt k w r"] rh
    by (simp add: new_record_def)
  then show ?thesis
    by (simp add: ServeHTTP_def rh Let_def Host_HandlePanic split: option.splits prod.splits)
qed

text \<open>
  Claim C5. For every remote address the host that \<^verbatim>\<open>ServeHTTP\<close> puts in the record is
  the address up to, and without, its last colon; an address with no colon is kept
  whole. \<^verbatim>\<open>203.0.113.5:54321\<close> gives \<^verbatim>\<open>203.0.113.5\<close>, and \<^verbatim>\<open>203.0.113.5\<close> gives itself.
\<close>

theorem host_is_prefix_before_last_colon:
  "Host (the_rec (ServeHTTP W rt app k w r)) = remote_host (RemoteAddr r) \<and>
   (CHR '':'' \<notin> set addr \<longrightarrow> remote_host addr = addr) \<and>
   (CHR '':'' \<in> set addr \<longrightarrow>
      (\<exists>port. addr = remote_host addr @ CHR '':'' # port \<and> CHR '':'' \<notin> set port)) \<and>
   remote_host ''203.0.113.5:54321'' = ''203.0.113.5'' \<and>
   remote_host ''203.0.113.5'' = ''203.0.113.5''"
proof (intro conjI impI)
  show "Host (the_rec (ServeHTTP W rt app k w r)) = remote_host (RemoteAddr r)"
    by (rule Host_ServeHTTP)
  show "remote_host addr = addr" if "CHR '':'' \<notin> set addr"
    using that by (rule remote_host_no_colon)
  show "\<exists>port. addr = remote_host addr @ CHR '':'' # port \<and> CHR '':'' \<notin> set port"
    if "CHR '':'' \<in> set addr"
    using that by (rule remote_host_colon)
  show "remote_host ''203.0.113.5:54321'' = ''203.0.113.5''"
    by (simp add: remote_host_def LastIndex_def)
  show "remote_host ''203.0.113.5'' = ''203.0.113.5''"
    by (simp add: remote_host_def LastIndex_def)
qed

theorem host_is_prefix_before_last_colon_witness:
  "CHR '':'' \<in> set ''[::1]:8080'' \<and>
   (\<exists>port. ''[::1]:8080'' = remote_host ''[::1]:8080'' @ CHR '':'' # port \<and> CHR '':'' \<notin> set port) \<and>
   CHR '':'' \<notin> set ''localhost'' \<and> remote_host ''localhost'' = ''localhost''"
proof -
  have a: "CHR '':'' \<in> set ''[::1]:8080''" by simp
  have b: "CHR '':'' \<notin> set ''localhost''" by simp
  have t1: "CHR '':'' \<in> set ''[::1]:8080'' \<longrightarrow>
      (\<exists>port. ''[::1]:8080'' = remote_host ''[::1]:8080'' @ CHR '':'' # port \<and> CHR '':'' \<notin> set port)"
    by (rule host_is_prefix_before_last_colon
        [where addr = "''[::1]:8080''", THEN conjunct2, THEN conjunct2, THEN conjunct1])
  have t2: "CHR '':'' \<notin> set ''localhost'' \<longrightarrow> remote_host ''localhost'' = ''localhost''"
    by (rule host_is_prefix_before_last_colon
        [where addr = "''localhost''", THEN conjunct2, THEN conjunct1])
  from t1 a have c: "\<exists>port. ''[::1]:8080'' = remote_host ''[::1]:8080'' @ CHR '':'' # port \<and> CHR '':'' \<notin> set port"
    by (rule mp)
  from t2 b have d: "remote_host ''localhost'' = ''localhost''" by (rule mp)
  from a c b d show ?thesis by (intro conjI)
qed

subsection \<open>Construction\<close>

text \<open>
  Claim C3, as amended. \<^verbatim>\<open>NewApp\<close> takes one boolean and gives it to both flags: in
  every application it returns, the flag for the stack trace in the 500 page and the flag
  for the stack trace in the error log are equal to that boolean, and so to each other.
\<close>

theorem NewApp_sets_both_flags:
  "StackIn500 (NewApp h detailed_stacks) = detailed_stacks \<and>
   StackInLog (NewApp h detailed_stacks) = detailed_stacks"
  by (simp add: NewApp_def)

text \<open>
  Claim C3 as it is stated, that some application built by the constructor has two
  different flags, is false.
\<close>

theorem NewApp_flags_differ_counterexample:
  "\<not> (\<exists>h d. StackIn500 (NewApp h d :: unit App) \<noteq> StackInLog (NewApp h d :: unit App))"
  by (simp add: NewApp_def)

subsection \<open>The panic guard\<close>

lemma detailed_page_text:
  "Sprintf errorPageDetailed [ArgAny e, ArgString stk] =
     ''<html><body><h1>500 Internal server error</h1><p>A runtime error has just happened:</p><ul><li>'' @
     fmt_v e @ ''</li></ul><p>Stack trace of the problem:</p><pre>'' @ stk @ ''</pre></body></html>''"
  by (simp add: errorPageDetailed_def Sprintf.simps)

lemma report_text:
  "Sprintf ''[%s] [panic] %v [at %s]'' [ArgString ts, ArgAny v, ArgString loc] =
     ''['' @ ts @ ''] [panic] '' @ fmt_v v @ '' [at '' @ loc @ '']''"
  by (simp add: Sprintf.simps)

lemma report_text_stack:
  "Sprintf ''[%s] [panic] %v [at %s]\<newline>%s''
       [ArgString ts, ArgAny v, ArgString loc, ArgString stk] =
     ''['' @ ts @ ''] [panic] '' @ fmt_v v @ '' [at '' @ loc @ '']\<newline>'' @ stk"
  by (simp add: Sprintf.simps)

lemma Write_unchanged:
  "Status (snd (Write W rec p)) = Status rec"
  "RequestCompleted (snd (Write W rec p)) = RequestCompleted rec"
  "RequestStarted (snd (Write W rec p)) = RequestStarted rec"
  "ResponseWriter (snd (Write W rec p)) = snd (impl_Write W (ResponseWriter rec) p)"
  "Bytes (snd (Write W rec p)) = Bytes rec + word_of_int (fst (fst (impl_Write W (ResponseWriter rec) p)))"
  by (simp_all add: Write_def split: prod.splits)

lemma WriteHeader_fields:
  "Status (WriteHeader W rec s) = s"
  "RequestCompleted (WriteHeader W rec s) = RequestCompleted rec"
  "RequestStarted (WriteHeader W rec s) = RequestStarted rec"
  "ResponseWriter (WriteHeader W rec s) = impl_WriteHeader W (ResponseWriter rec) s"
  "Bytes (WriteHeader W rec s) = Bytes rec"
  by (simp_all add: WriteHeader_def)

lemma HandlePanic_Loggers:
  "Loggers (the_app (HandlePanic W rt e st)) = Loggers (the_app st)"
  by (simp add: HandlePanic_def Let_def split: option.splits prod.splits)

lemma HandlePanic_no_sink:
  "Errors (the_app st) = None \<Longrightarrow>
   the_app (HandlePanic W rt e st) = the_app st \<and>
   blocked (HandlePanic W rt e st) = blocked st \<and>
   now_calls (HandlePanic W rt e st) = now_calls st"
  by (simp add: HandlePanic_def Let_def split: option.splits prod.splits)

lemma HandlePanic_sink:
  assumes "Errors (the_app st) = Some ch" and "length (chan_buf ch) < chan_cap ch"
  shows "the_app (HandlePanic W rt (Some v) st) =
           (the_app st)\<lparr>Errors := Some (ch\<lparr>chan_buf := chan_buf ch @
              [''['' @ Format (clock rt (now_calls st)) ApacheTime @ ''] [panic] '' @ fmt_v v @
               '' [at '' @ where_at rt 2 @ '']'' @
               (if StackInLog (the_app st) then ''\<newline>'' @ Stack rt 2 else [])]\<rparr>)\<rparr> \<and>
         blocked (HandlePanic W rt (Some v) st) = blocked st"
  using assms
  by (simp add: HandlePanic_def Let_def chan_send_def report_text report_text_stack
      split: prod.splits)

lemma HandlePanic_sink_full:
  assumes "Errors (the_app st) = Some ch" and "\<not> length (chan_buf ch) < chan_cap ch"
  shows "the_app (HandlePanic W rt (Some v) st) = the_app st \<and>
         blocked (HandlePanic W rt (Some v) st)"
  using assms
  by (simp add: HandlePanic_def Let_def chan_send_def split: prod.splits)

lemma ServeHTTP_panic:
  assumes "run_handler W (Handler app r) (new_record rt k w r) = (Some v, rec1)"
  shows "ServeHTTP W rt app k w r =
           HandlePanic W rt (Some v)
             \<lparr>the_app = app, the_rec = rec1, now_calls = Suc k, blocked = False\<rparr>"
  using assms by (simp add: ServeHTTP_def)

lemma ServeHTTP_return:
  assumes "run_handler W (Handler app r) (new_record rt k w r) = (None, rec1)"
  shows "ServeHTTP W rt app k w r =
           \<lparr>the_app = app\<lparr>Loggers := fst (send_all (Loggers app)
                        (rec1\<lparr>RequestCompleted := clock rt (Suc k)\<rparr>))\<rparr>,
            the_rec = rec1\<lparr>RequestCompleted := clock rt (Suc k)\<rparr>,
            now_calls = Suc (Suc k),
            blocked = snd (send_all (Loggers app) (rec1\<lparr>RequestCompleted := clock rt (Suc k)\<rparr>))\<rparr>"
  using assms by (simp add: ServeHTTP_def Let_def HandlePanic_None split: prod.splits)
lemma RequestCompleted_run_handler:
  "RequestCompleted (snd (run_handler W h rec)) = RequestCompleted rec"
proof (induction h arbitrary: rec)
  case (CallWrite p k)
  obtain res rec' where w: "Write W rec p = (res, rec')" by (cases "Write W rec p")
  have "RequestCompleted rec' = RequestCompleted rec" using Write_unchanged(2) [of W rec p] w by simp
  with CallWrite [of "k res" rec'] w show ?case by simp
next
  case (CallWriteHeader s h)
  then show ?case by (simp add: WriteHeader_fields)
qed simp_all

lemma ServeHTTP_panic_skips_fanout:
  assumes "run_handler W (Handler app r) (new_record rt k w r) = (Some v, rec1)"
  shows "Loggers (the_app (ServeHTTP W rt app k w r)) = Loggers app \<and>
         RequestCompleted (the_rec (ServeHTTP W rt app k w r)) = zero_Time \<and>
         Status (the_rec (ServeHTTP W rt app k w r)) = 500"
proof -
  have "RequestCompleted rec1 = zero_Time"
    using RequestCompleted_run_handler [of W "Handler app r" "new_record rt k w r"] assms
    by (simp add: new_record_def)
  then show ?thesis
    by (simp add: ServeHTTP_panic [OF assms] HandlePanic_Loggers HandlePanic_rec
        Write_unchanged WriteHeader_fields)
qed

text \<open>
  Claim C6. The two pages the guard writes are the fixed texts, byte for byte: the short
  one as it stands, the detailed one with the value of the panic and the stack trace in
  the two places. The guard sends the wrapped writer the status 500 and then the page, in
  one write.
\<close>

theorem error_pages_are_the_fixed_texts:
  "errorPageShort = ''<html><body><h1>500 Internal server error</h1></body></html>'' \<and>
   Sprintf errorPageDetailed [ArgAny e, ArgString stk] =
     ''<html><body><h1>500 Internal server error</h1>'' @
     ''<p>A runtime error has just happened:</p><ul><li>'' @ fmt_v e @
     ''</li></ul><p>Stack trace of the problem:</p><pre>'' @ stk @ ''</pre>'' @
     ''</body></html>'' \<and>
   ResponseWriter (the_rec (HandlePanic W rt (Some e) st)) =
     snd (impl_Write W (impl_WriteHeader W (ResponseWriter (the_rec st)) 500)
       (if StackIn500 (the_app st)
        then ''<html><body><h1>500 Internal server error</h1>'' @
             ''<p>A runtime error has just happened:</p><ul><li>'' @ fmt_v e @
             ''</li></ul><p>Stack trace of the problem:</p><pre>'' @ Stack rt 2 @ ''</pre>'' @
             ''</body></html>''
        else ''<html><body><h1>500 Internal server error</h1></body></html>''))"
  by (simp add: HandlePanic_rec Write_unchanged WriteHeader_fields detailed_page_text
      errorPageShort_def)

text \<open>
  Claim C2. When the handler panics, the record has status 500; the wrapped writer is
  sent the status 500 and one page, the detailed one exactly when \<^verbatim>\<open>StackIn500\<close> is set;
  with no error channel nothing is reported; with an error channel, once the guard has
  completed exactly one report has been appended to it: the time in brackets, the tag
  \<^verbatim>\<open>[panic]\<close>, the value of the panic, the call site as \<^verbatim>\<open>[at ...]\<close>, and on a new line
  the stack trace exactly when \<^verbatim>\<open>StackInLog\<close> is set. The guard has not completed, and is
  suspended in its send with the channel as it was, exactly while the channel is full.
\<close>

theorem panic_gives_500_one_page_one_report:
  assumes "run_handler W (Handler app r) (new_record rt k w r) = (Some v, rec1)"
  shows
  "Status (the_rec (ServeHTTP W rt app k w r)) = 500 \<and>
   ResponseWriter (the_rec (ServeHTTP W rt app k w r)) =
     snd (impl_Write W (impl_WriteHeader W (ResponseWriter rec1) 500)
       (if StackIn500 app
        then ''<html><body><h1>500 Internal server error</h1><p>A runtime error has just happened:</p><ul><li>'' @
             fmt_v v @ ''</li></ul><p>Stack trace of the problem:</p><pre>'' @ Stack rt 2 @
             ''</pre></body></html>''
        else ''<html><body><h1>500 Internal server error</h1></body></html>'')) \<and>
   (Errors app = None \<longrightarrow>
      the_app (ServeHTTP W rt app k w r) = app \<and> \<not> blocked (ServeHTTP W rt app k w r)) \<and>
   (\<forall>ch. Errors app = Some ch \<longrightarrow>
      blocked (ServeHTTP W rt app k w r) = (chan_cap ch \<le> length (chan_buf ch)) \<and>
      (\<not> blocked (ServeHTTP W rt app k w r) \<longrightarrow>
         the_app (ServeHTTP W rt app k w r) =
           app\<lparr>Errors := Some (ch\<lparr>chan_buf := chan_buf ch @
             [''['' @ Format (clock rt (Suc k)) ApacheTime @ ''] [panic] '' @ fmt_v v @
              '' [at '' @ where_at rt 2 @ '']'' @
              (if StackInLog app then ''\<newline>'' @ Stack rt 2 else [])]\<rparr>)\<rparr>) \<and>
      (blocked (ServeHTTP W rt app k w r) \<longrightarrow> the_app (ServeHTTP W rt app k w r) = app))"
proof (intro conjI impI allI)
  let ?st0 = "\<lparr>the_app = app, the_rec = rec1, now_calls = Suc k, blocked = False\<rparr>"
  have eq: "ServeHTTP W rt app k w r = HandlePanic W rt (Some v) ?st0"
    by (rule ServeHTTP_panic [OF assms])
  show "Status (the_rec (ServeHTTP W rt app k w r)) = 500"
    by (simp add: eq HandlePanic_rec Write_unchanged WriteHeader_fields)
  show "ResponseWriter (the_rec (ServeHTTP W rt app k w r)) =
     snd (impl_Write W (impl_WriteHeader W (ResponseWriter rec1) 500)
       (if StackIn500 app
        then ''<html><body><h1>500 Internal server error</h1><p>A runtime error has just happened:</p><ul><li>'' @
             fmt_v v @ ''</li></ul><p>Stack trace of the problem:</p><pre>'' @ Stack rt 2 @
             ''</pre></body></html>''
        else ''<html><body><h1>500 Internal server error</h1></body></html>''))"
    by (simp add: eq HandlePanic_rec Write_unchanged WriteHeader_fields detailed_page_text
        errorPageShort_def)
  show "the_app (ServeHTTP W rt app k w r) = app" if "Errors app = None"
    using HandlePanic_no_sink [of ?st0 W rt "Some v"] that by (simp add: eq)
  show "\<not> blocked (ServeHTTP W rt app k w r)" if "Errors app = None"
    using HandlePanic_no_sink [of ?st0 W rt "Some v"] that by (simp add: eq)
  fix ch
  assume a: "Errors app = Some ch"
  have room: "the_app (ServeHTTP W rt app k w r) =
        app\<lparr>Errors := Some (ch\<lparr>chan_buf := chan_buf ch @
          [''['' @ Format (clock rt (Suc k)) ApacheTime @ ''] [panic] '' @ fmt_v v @
           '' [at '' @ where_at rt 2 @ '']'' @
           (if StackInLog app then ''\<newline>'' @ Stack rt 2 else [])]\<rparr>)\<rparr> \<and>
      \<not> blocked (ServeHTTP W rt app k w r)"
    if "length (chan_buf ch) < chan_cap ch"
    using HandlePanic_sink [of ?st0 ch W rt v] a that by (simp add: eq)
  have full: "the_app (ServeHTTP W rt app k w r) = app \<and> blocked (ServeHTTP W rt app k w r)"
    if "\<not> length (chan_buf ch) < chan_cap ch"
    using HandlePanic_sink_full [of ?st0 ch W rt v] a that by (simp add: eq)
  show "blocked (ServeHTTP W rt app k w r) = (chan_cap ch \<le> length (chan_buf ch))"
    using room full by (cases "length (chan_buf ch) < chan_cap ch") auto
  show "the_app (ServeHTTP W rt app k w r) =
        app\<lparr>Errors := Some (ch\<lparr>chan_buf := chan_buf ch @
          [''['' @ Format (clock rt (Suc k)) ApacheTime @ ''] [panic] '' @ fmt_v v @
           '' [at '' @ where_at rt 2 @ '']'' @
           (if StackInLog app then ''\<newline>'' @ Stack rt 2 else [])]\<rparr>)\<rparr>"
    if "\<not> blocked (ServeHTTP W rt app k w r)"
    using room full that by (cases "length (chan_buf ch) < chan_cap ch") auto
  show "the_app (ServeHTTP W rt app k w r) = app" if "blocked (ServeHTTP W rt app k w r)"
    using room full that by (cases "length (chan_buf ch) < chan_cap ch") auto
qed

lemma panicking_handler_run:
  "Handler app = panicking_handler \<Longrightarrow>
   run_handler mem_writer (Handler app example_request)
       (new_record example_runtime 0 (None, []) example_request) =
     (Some (AnyString ''boom''),
      snd (Write mem_writer (new_record example_runtime 0 (None, []) example_request) ''partial''))"
  by (simp add: panicking_handler_def split: prod.splits)

theorem panic_gives_500_one_page_one_report_witness:
  "Status (the_rec (ServeHTTP mem_writer example_runtime (NewApp panicking_handler False)
      0 (None, []) example_request)) = 500 \<and>
   ResponseWriter (the_rec (ServeHTTP mem_writer example_runtime (NewApp panicking_handler False)
      0 (None, []) example_request)) =
     (Some 200, ''partial<html><body><h1>500 Internal server error</h1></body></html>'') \<and>
   the_app (ServeHTTP mem_writer example_runtime (NewApp panicking_handler False)
      0 (None, []) example_request) = NewApp panicking_handler False \<and>
   \<not> blocked (ServeHTTP mem_writer example_runtime
      (ErrorLogger (NewApp panicking_handler True)) 0 (None, []) example_request) \<and>
   Errors (the_app (ServeHTTP mem_writer example_runtime
      (ErrorLogger (NewApp panicking_handler True)) 0 (None, []) example_request)) =
     Some \<lparr>chan_cap = 1000, chan_buf =
       [''['' @ Format (clock example_runtime 1) ApacheTime @
        ''] [panic] boom [at handler.go:42]\<newline>goroutine 7 [running]'']\<rparr> \<and>
   blocked (ServeHTTP mem_writer example_runtime
      ((NewApp panicking_handler True)\<lparr>Errors := Some \<lparr>chan_cap = 1, chan_buf = [''earlier'']\<rparr>\<rparr>)
      0 (None, []) example_request) \<and>
   Errors (the_app (ServeHTTP mem_writer example_runtime
      ((NewApp panicking_handler True)\<lparr>Errors := Some \<lparr>chan_cap = 1, chan_buf = [''earlier'']\<rparr>\<rparr>)
      0 (None, []) example_request)) = Some \<lparr>chan_cap = 1, chan_buf = [''earlier'']\<rparr>"
proof -
  let ?app0 = "NewApp panicking_handler False :: (int option \<times> string) App"
  let ?app1 = "ErrorLogger (NewApp panicking_handler True) :: (int option \<times> string) App"
  let ?chf = "\<lparr>chan_cap = 1, chan_buf = [''earlier'']\<rparr>"
  let ?app2 = "(NewApp panicking_handler True)\<lparr>Errors := Some ?chf\<rparr> :: (int option \<times> string) App"
  have h0: "Handler ?app0 = panicking_handler" by (simp add: NewApp_def)
  have h1: "Handler ?app1 = panicking_handler" by (simp add: NewApp_def ErrorLogger_def)
  have h2: "Handler ?app2 = panicking_handler" by (simp add: NewApp_def)
  have a: "Errors ?app0 = None" by (simp add: NewApp_def)
  have b: "Errors ?app1 = Some (make_chan 1000)" by (simp add: NewApp_def ErrorLogger_def)
  have c: "Errors ?app2 = Some ?chf" by simp
  note t0 = panic_gives_500_one_page_one_report [OF panicking_handler_run [OF h0]]
  note t1 = panic_gives_500_one_page_one_report [OF panicking_handler_run [OF h1],
      THEN conjunct2, THEN conjunct2, THEN conjunct2, THEN spec, of "make_chan 1000",
      THEN mp, OF b]
  note t2 = panic_gives_500_one_page_one_report [OF panicking_handler_run [OF h2],
      THEN conjunct2, THEN conjunct2, THEN conjunct2, THEN spec, of ?chf, THEN mp, OF c]
  have c1: "Status (the_rec (ServeHTTP mem_writer example_runtime ?app0
      0 (None, []) example_request)) = 500"
    using t0 by blast
  have c2: "ResponseWriter (the_rec (ServeHTTP mem_writer example_runtime ?app0
      0 (None, []) example_request)) =
     (Some 200, ''partial<html><body><h1>500 Internal server error</h1></body></html>'')"
    using t0 [THEN conjunct2, THEN conjunct1]
    by (simp add: NewApp_def Write_def mem_writer_def new_record_def)
  have c3: "the_app (ServeHTTP mem_writer example_runtime ?app0
      0 (None, []) example_request) = ?app0"
    using t0 [THEN conjunct2, THEN conjunct2, THEN conjunct1] a by simp
  have c4: "\<not> blocked (ServeHTTP mem_writer example_runtime ?app1 0 (None, []) example_request)"
    using t1 [THEN conjunct1] by (simp add: make_chan_def)
  have "the_app (ServeHTTP mem_writer example_runtime ?app1 0 (None, []) example_request) =
      ?app1\<lparr>Errors := Some ((make_chan 1000)\<lparr>chan_buf := chan_buf (make_chan 1000) @
         [''['' @ Format (clock example_runtime (Suc 0)) ApacheTime @ ''] [panic] '' @
          fmt_v (AnyString ''boom'') @ '' [at '' @ where_at example_runtime 2 @ '']'' @
          (if StackInLog ?app1 then ''\<newline>'' @ Stack example_runtime 2 else [])]\<rparr>)\<rparr>"
    using t1 [THEN conjunct2, THEN conjunct1] c4 by (rule mp)
  then have c5: "Errors (the_app (ServeHTTP mem_writer example_runtime ?app1
      0 (None, []) example_request)) =
     Some \<lparr>chan_cap = 1000, chan_buf =
       [''['' @ Format (clock example_runtime 1) ApacheTime @
        ''] [panic] boom [at handler.go:42]\<newline>goroutine 7 [running]'']\<rparr>"
    by (simp add: NewApp_def ErrorLogger_def make_chan_def example_runtime_def)
  have c6: "blocked (ServeHTTP mem_writer example_runtime ?app2 0 (None, []) example_request)"
    using t2 [THEN conjunct1] by simp
  have "the_app (ServeHTTP mem_writer example_runtime ?app2 0 (None, []) example_request) = ?app2"
    using t2 [THEN conjunct2, THEN conjunct2] c6 by (rule mp)
  then have c7: "Errors (the_app (ServeHTTP mem_writer example_runtime ?app2
      0 (None, []) example_request)) = Some ?chf"
    by simp
  from c1 c2 c3 c4 c5 c6 c7 show ?thesis by (intro conjI)
qed

subsection \<open>Fan-out and panics\<close>

lemma panicking_handler_run_any:
  "Handler app = panicking_handler \<Longrightarrow>
   run_handler mem_writer (Handler app example_request) rec =
     (Some (AnyString ''boom''), snd (Write mem_writer rec ''partial''))"
  by (simp add: panicking_handler_def split: prod.splits)

lemma hello_handler_run_any:
  "Handler app = hello_handler \<Longrightarrow>
   run_handler mem_writer (Handler app example_request) rec =
     (None, snd (Write mem_writer (snd (Write mem_writer rec ''hello '')) ''world''))"
  by (simp add: hello_handler_def split: prod.splits)

text \<open>
  Claim C1, at a failing input. An application with one log sink and no error sink
  serves a request whose handler writes and then panics: the guard sets status 500 and
  \<^verbatim>\<open>ServeHTTP\<close> returns, but the completion time of the record is still the zero time and
  the queue of the sink is still empty. The same application with a handler that returns
  stamps the record and puts it on the queue.
\<close>

theorem panicking_request_is_not_fanned_out:
  "Status (the_rec (ServeHTTP mem_writer example_runtime
      (fst (AddLogger (NewApp panicking_handler False) CombinedFormat []))
      0 (None, []) example_request)) = 500 \<and>
   \<not> blocked (ServeHTTP mem_writer example_runtime
      (fst (AddLogger (NewApp panicking_handler False) CombinedFormat []))
      0 (None, []) example_request) \<and>
   RequestCompleted (the_rec (ServeHTTP mem_writer example_runtime
      (fst (AddLogger (NewApp panicking_handler False) CombinedFormat []))
      0 (None, []) example_request)) = zero_Time \<and>
   map chan_buf (Loggers (the_app (ServeHTTP mem_writer example_runtime
      (fst (AddLogger (NewApp panicking_handler False) CombinedFormat []))
      0 (None, []) example_request))) = [[]] \<and>
   RequestCompleted (the_rec (ServeHTTP mem_writer example_runtime
      (fst (AddLogger (NewApp hello_handler False) CombinedFormat []))
      0 (None, []) example_request)) = clock example_runtime 1 \<and>
   map (map Status \<circ> chan_buf) (Loggers (the_app (ServeHTTP mem_writer example_runtime
      (fst (AddLogger (NewApp hello_handler False) CombinedFormat []))
      0 (None, []) example_request))) = [[200]]"
proof -
  let ?appP = "fst (AddLogger (NewApp panicking_handler False) CombinedFormat []) ::
                 (int option \<times> string) App"
  let ?appH = "fst (AddLogger (NewApp hello_handler False) CombinedFormat []) ::
                 (int option \<times> string) App"
  let ?rec0 = "new_record example_runtime 0 (None, []) example_request"
  have hp: "Handler ?appP = panicking_handler" by (simp add: AddLogger_def NewApp_def Let_def)
  have hh: "Handler ?appH = hello_handler" by (simp add: AddLogger_def NewApp_def Let_def)
  have lp: "Loggers ?appP = [make_chan 1000]" "Errors ?appP = None"
    by (simp_all add: AddLogger_def NewApp_def Let_def)
  have lh: "Loggers ?appH = [make_chan 1000]" "Errors ?appH = None"
    by (simp_all add: AddLogger_def NewApp_def Let_def)
  note runP = panicking_handler_run_any [OF hp, of ?rec0]
  note runH = hello_handler_run_any [OF hh, of ?rec0]
  note skip = ServeHTTP_panic_skips_fanout [OF runP]
  have nb: "\<not> blocked (ServeHTTP mem_writer example_runtime ?appP 0 (None, []) example_request)"
    using HandlePanic_no_sink [of "\<lparr>the_app = ?appP, the_rec = snd (Write mem_writer ?rec0 ''partial''),
        now_calls = Suc 0, blocked = False\<rparr>" mem_writer example_runtime "Some (AnyString ''boom'')"]
      lp(2)
    by (simp add: ServeHTTP_panic [OF runP])
  have q: "map chan_buf (Loggers (the_app (ServeHTTP mem_writer example_runtime ?appP
      0 (None, []) example_request))) = [[]]"
    using skip lp(1) by (simp add: make_chan_def)
  have hc: "RequestCompleted (the_rec (ServeHTTP mem_writer example_runtime ?appH
      0 (None, []) example_request)) = clock example_runtime 1"
    by (simp add: ServeHTTP_return [OF runH])
  have hq: "map (map Status \<circ> chan_buf) (Loggers (the_app (ServeHTTP mem_writer example_runtime ?appH
      0 (None, []) example_request))) = [[200]]"
    by (simp add: ServeHTTP_return [OF runH] lh make_chan_def chan_send_def Write_unchanged
        new_record_def)
  from skip nb q hc hq show ?thesis by simp
qed

subsection \<open>Bytes and status of the record\<close>

lemma run_handler_Bytes:
  "Bytes (snd (run_handler W h rec)) =
     Bytes rec + word_of_int (sum_list (reported_counts W h (ResponseWriter rec)))"
proof (induction h arbitrary: rec)
  case (CallWrite p k)
  obtain n err w' where iw: "impl_Write W (ResponseWriter rec) p = ((n, err), w')"
    by (cases "impl_Write W (ResponseWriter rec) p") auto
  let ?rec' = "rec\<lparr>ResponseWriter := w', Bytes := Bytes rec + word_of_int n\<rparr>"
  have w: "Write W rec p = ((n, err), ?rec')" by (simp add: Write_def iw)
  have "Bytes (snd (run_handler W (k (n, err)) ?rec')) =
          Bytes ?rec' + word_of_int (sum_list (reported_counts W (k (n, err)) (ResponseWriter ?rec')))"
    by (rule CallWrite [OF rangeI])
  then show ?case by (simp add: w iw)
next
  case (CallWriteHeader s h)
  show ?case using CallWriteHeader [of "WriteHeader W rec s"] by (simp add: WriteHeader_fields)
qed simp_all

lemma run_handler_Status:
  "Status (snd (run_handler W h rec)) = last (Status rec # statuses_set W h (ResponseWriter rec))"
proof (induction h arbitrary: rec)
  case (CallWrite p k)
  obtain n err w' where iw: "impl_Write W (ResponseWriter rec) p = ((n, err), w')"
    by (cases "impl_Write W (ResponseWriter rec) p") auto
  let ?rec' = "rec\<lparr>ResponseWriter := w', Bytes := Bytes rec + word_of_int n\<rparr>"
  have w: "Write W rec p = ((n, err), ?rec')" by (simp add: Write_def iw)
  have "Status (snd (run_handler W (k (n, err)) ?rec')) =
          last (Status ?rec' # statuses_set W (k (n, err)) (ResponseWriter ?rec'))"
    by (rule CallWrite [OF rangeI])
  then show ?case by (simp add: w iw)
next
  case (CallWriteHeader s h)
  show ?case using CallWriteHeader [of "WriteHeader W rec s"] by (simp add: WriteHeader_fields)
qed simp_all

lemma uint_word_of_int_exact:
  "0 \<le> x \<Longrightarrow> x < 2 ^ 64 \<Longrightarrow> uint (word_of_int x :: 64 word) = x"
  by (simp add: uint_word_of_int)
lemma ServeHTTP_Bytes:
  assumes "run_handler W (Handler app r) (new_record rt k w r) = (e, rec1)"
  shows "Bytes (the_rec (ServeHTTP W rt app k w r)) =
           word_of_int (sum_list (reported_counts W (Handler app r) w) +
                        sum_list (guard_counts W rt app e (ResponseWriter rec1)))"
proof -
  have b1: "Bytes rec1 = word_of_int (sum_list (reported_counts W (Handler app r) w))"
    using run_handler_Bytes [of W "Handler app r" "new_record rt k w r"] assms
    by (simp add: new_record_def)
  show ?thesis
  proof (cases e)
    case None
    with assms have "run_handler W (Handler app r) (new_record rt k w r) = (None, rec1)" by simp
    from ServeHTTP_return [OF this] show ?thesis by (simp add: b1 None guard_counts_def)
  next
    case (Some v)
    with assms have "run_handler W (Handler app r) (new_record rt k w r) = (Some v, rec1)" by simp
    from ServeHTTP_panic [OF this] show ?thesis
      by (simp add: HandlePanic_rec Write_unchanged WriteHeader_fields b1 Some guard_counts_def)
  qed
qed

lemma ServeHTTP_Status:
  assumes "run_handler W (Handler app r) (new_record rt k w r) = (e, rec1)"
  shows "Status (the_rec (ServeHTTP W rt app k w r)) =
           (case e of Some v \<Rightarrow> 500 | None \<Rightarrow> last (200 # statuses_set W (Handler app r) w))"
proof -
  have s1: "Status rec1 = last (200 # statuses_set W (Handler app r) w)"
    using run_handler_Status [of W "Handler app r" "new_record rt k w r"] assms
    by (simp add: new_record_def)
  show ?thesis
  proof (cases e)
    case None
    with assms have "run_handler W (Handler app r) (new_record rt k w r) = (None, rec1)" by simp
    from ServeHTTP_return [OF this] show ?thesis by (simp add: s1 None)
  next
    case (Some v)
    with assms have "run_handler W (Handler app r) (new_record rt k w r) = (Some v, rec1)" by simp
    from ServeHTTP_panic [OF this] show ?thesis
      by (simp add: HandlePanic_rec Write_unchanged WriteHeader_fields Some)
  qed
qed

lemma sum_list_nonneg_int: "\<forall>n\<in>set ns. (0::int) \<le> n \<Longrightarrow> 0 \<le> sum_list ns"
  by (induction ns) auto

text \<open>
  Claim C4. For every request, the byte counter of the record is the sum of the counts
  the wrapped writer reported for all the writes that went through the record, those of
  the handler and that of the panic guard, as a \<^verbatim>\<open>uint64\<close>: the sum itself when no
  count is negative and the sum is below \<open>2 ^ 64\<close>. The status of the record is 500 after
  a recovered panic, else the last status the handler set, else 200. A request that
  neither panics nor sets a status has status 200, and its byte counter is the sum of the
  counts of the handler's writes, which is the number of bytes the handler wrote when the
  writer takes every write whole.
\<close>

theorem record_counts_bytes_and_keeps_last_status:
  assumes "run_handler W (Handler app r) (new_record rt k w r) = (e, rec1)"
  shows
  "Bytes (the_rec (ServeHTTP W rt app k w r)) =
     word_of_int (sum_list (reported_counts W (Handler app r) w) +
                  sum_list (guard_counts W rt app e (ResponseWriter rec1))) \<and>
   ((\<forall>n \<in> set (reported_counts W (Handler app r) w @ guard_counts W rt app e (ResponseWriter rec1)).
        0 \<le> n) \<and>
    sum_list (reported_counts W (Handler app r) w @ guard_counts W rt app e (ResponseWriter rec1))
      < 2 ^ 64 \<longrightarrow>
    uint (Bytes (the_rec (ServeHTTP W rt app k w r))) =
      sum_list (reported_counts W (Handler app r) w @ guard_counts W rt app e (ResponseWriter rec1))) \<and>
   Status (the_rec (ServeHTTP W rt app k w r)) =
     (case e of Some v \<Rightarrow> 500 | None \<Rightarrow> last (200 # statuses_set W (Handler app r) w)) \<and>
   (e = None \<and> statuses_set W (Handler app r) w = [] \<longrightarrow>
      Status (the_rec (ServeHTTP W rt app k w r)) = 200 \<and>
      Bytes (the_rec (ServeHTTP W rt app k w r)) =
        word_of_int (sum_list (reported_counts W (Handler app r) w))) \<and>
   (e = None \<and> statuses_set W (Handler app r) w = [] \<and>
    reported_counts W (Handler app r) w = map int (written_sizes W (Handler app r) w) \<and>
    sum_list (written_sizes W (Handler app r) w) < 2 ^ 64 \<longrightarrow>
      unat (Bytes (the_rec (ServeHTTP W rt app k w r))) =
        sum_list (written_sizes W (Handler app r) w))"
proof (intro conjI impI)
  note B = ServeHTTP_Bytes [OF assms]
  note S = ServeHTTP_Status [OF assms]
  let ?cs = "reported_counts W (Handler app r) w"
  let ?gs = "guard_counts W rt app e (ResponseWriter rec1)"
  show "Bytes (the_rec (ServeHTTP W rt app k w r)) = word_of_int (sum_list ?cs + sum_list ?gs)"
    by (rule B)
  show "Status (the_rec (ServeHTTP W rt app k w r)) =
     (case e of Some v \<Rightarrow> 500 | None \<Rightarrow> last (200 # statuses_set W (Handler app r) w))"
    by (rule S)
  show "uint (Bytes (the_rec (ServeHTTP W rt app k w r))) = sum_list (?cs @ ?gs)"
    if h: "(\<forall>n \<in> set (?cs @ ?gs). 0 \<le> n) \<and> sum_list (?cs @ ?gs) < 2 ^ 64"
  proof -
    from h have "0 \<le> sum_list (?cs @ ?gs)" by (intro sum_list_nonneg_int) blast
    moreover from h have "sum_list (?cs @ ?gs) < 2 ^ 64" by blast
    ultimately have "uint (word_of_int (sum_list (?cs @ ?gs)) :: 64 word) = sum_list (?cs @ ?gs)"
      by (rule uint_word_of_int_exact)
    then show ?thesis by (simp add: B)
  qed
  show "Status (the_rec (ServeHTTP W rt app k w r)) = 200"
    if "e = None \<and> statuses_set W (Handler app r) w = []"
    using that by (simp add: S)
  show "Bytes (the_rec (ServeHTTP W rt app k w r)) = word_of_int (sum_list ?cs)"
    if "e = None \<and> statuses_set W (Handler app r) w = []"
    using that by (simp add: B guard_counts_def)
  show "unat (Bytes (the_rec (ServeHTTP W rt app k w r))) =
        sum_list (written_sizes W (Handler app r) w)"
    if h: "e = None \<and> statuses_set W (Handler app r) w = [] \<and>
        ?cs = map int (written_sizes W (Handler app r) w) \<and>
        sum_list (written_sizes W (Handler app r) w) < 2 ^ 64"
  proof -
    let ?n = "sum_list (written_sizes W (Handler app r) w)"
    have "sum_list ?cs = int ?n"
    proof -
      have "sum_list (map int xs) = int (sum_list xs)" for xs :: "nat list"
        by (induction xs) auto
      with h show ?thesis by simp
    qed
    with h have "Bytes (the_rec (ServeHTTP W rt app k w r)) = word_of_int (int ?n)"
      by (simp add: B guard_counts_def)
    then have "unat (Bytes (the_rec (ServeHTTP W rt app k w r))) = ?n mod 2 ^ 64"
      by (simp add: unat_of_nat)
    with h show ?thesis by simp
  qed
qed
lemma hello_handler_readings:
  "reported_counts mem_writer (hello_handler r) (None, []) = [6, 5]"
  "written_sizes mem_writer (hello_handler r) (None, []) = [6, 5]"
  "statuses_set mem_writer (hello_handler r) (None, []) = []"
  by (simp_all add: hello_handler_def mem_writer_def)

theorem record_counts_bytes_and_keeps_last_status_witness:
  "uint (Bytes (the_rec (ServeHTTP mem_writer example_runtime (NewApp hello_handler False)
      0 (None, []) example_request))) = 11 \<and>
   unat (Bytes (the_rec (ServeHTTP mem_writer example_runtime (NewApp hello_handler False)
      0 (None, []) example_request))) = 11 \<and>
   Status (the_rec (ServeHTTP mem_writer example_runtime (NewApp hello_handler False)
      0 (None, []) example_request)) = 200"
proof -
  let ?app = "NewApp hello_handler False :: (int option \<times> string) App"
  let ?rec0 = "new_record example_runtime 0 (None, []) example_request"
  have hh: "Handler ?app = hello_handler" by (simp add: NewApp_def)
  note run = hello_handler_run_any [OF hh, of ?rec0]
  note t = record_counts_bytes_and_keeps_last_status [OF run]
  have g: "guard_counts mem_writer example_runtime ?app None w1 = []" for w1
    by (simp add: guard_counts_def)
  have c1: "uint (Bytes (the_rec (ServeHTTP mem_writer example_runtime ?app
      0 (None, []) example_request))) = 11"
    using t [THEN conjunct2, THEN conjunct1] by (simp add: hh hello_handler_readings g)
  have c2: "unat (Bytes (the_rec (ServeHTTP mem_writer example_runtime ?app
      0 (None, []) example_request))) = 11"
    using t [THEN conjunct2, THEN conjunct2, THEN conjunct2, THEN conjunct2]
    by (simp add: hh hello_handler_readings)
  have c3: "Status (the_rec (ServeHTTP mem_writer example_runtime ?app
      0 (None, []) example_request)) = 200"
    using t [THEN conjunct2, THEN conjunct2, THEN conjunct2, THEN conjunct1]
    by (simp add: hh hello_handler_readings)
  from c1 c2 c3 show ?thesis by (intro conjI)
qed

subsection \<open>The formatters\<close>

lemma combined_text:
  \<open>CombinedFormat rec =
     Host rec @ '' - '' @ Indent rec @ '' ['' @ Format (RequestStarted rec) ApacheTime @
     ''] "'' @ Request rec @ ''" '' @ itoa (Status rec) @ '' '' @ nat_digits (unat (Bytes rec)) @
     '' "'' @ Referer rec @ ''" "'' @ UserAgent rec @ ''"''\<close>
  by (simp add: CombinedFormat_def Sprintf.simps)

lemma perf_text:
  \<open>PerfFormat rec =
     Host rec @ '' - '' @ Indent rec @ '' ['' @ Format (RequestStarted rec) ApacheTime @
     ''] "'' @ Request rec @ ''" '' @ itoa (Status rec) @ '' '' @ nat_digits (unat (Bytes rec)) @
     '' '' @ itoa (go_quot (Nanoseconds (Sub (RequestCompleted rec) (RequestStarted rec))) 1000000) @
     ''ms''\<close>
  by (simp add: PerfFormat_def Sprintf.simps)

lemma apache_layout:
  "Format t ApacheTime =
     appendInt (c_day (civil_of t)) 2 @ ''/'' @ month_abbr (c_month (civil_of t)) @ ''/'' @
     appendInt (c_year (civil_of t)) 4 @ '':'' @ appendInt (c_hour (civil_of t)) 2 @ '':'' @
     appendInt (c_minute (civil_of t)) 2 @ '':'' @ appendInt (c_second (civil_of t)) 2 @ '' '' @
     num_zone (c_offset (civil_of t))"
  by (simp add: Format_def ApacheTime_def format_layout.simps starts_with_def)

lemma nat_digits_small: "n < 10 \<Longrightarrow> nat_digits n = [digit_char n]"
  by (simp add: nat_digits.simps)

lemma itoa_0: "itoa 0 = ''0''"
  by (simp add: itoa_def nat_digits_small digit_char_def)

lemma itoa_200: "itoa 200 = ''200''"
  by (simp add: itoa_def nat_digits.simps digit_char_def)

lemma digits_512: "nat_digits 512 = ''512''"
  by (simp add: nat_digits.simps digit_char_def)

lemma go_quot_truncates:
  assumes "0 < b"
  shows "\<bar>go_quot d b\<bar> * b \<le> \<bar>d\<bar> \<and> \<bar>d\<bar> < (\<bar>go_quot d b\<bar> + 1) * b \<and>
         (0 \<le> d \<longrightarrow> 0 \<le> go_quot d b) \<and> (d \<le> 0 \<longrightarrow> go_quot d b \<le> 0)"
proof -
  have q: "go_quot d b = sgn d * (\<bar>d\<bar> div b)" using assms by (simp add: go_quot_def)
  have nn: "0 \<le> \<bar>d\<bar> div b" using assms by (simp add: pos_imp_zdiv_nonneg_iff)
  have a: "\<bar>go_quot d b\<bar> = \<bar>d\<bar> div b"
  proof (cases "d = 0")
    case True
    then show ?thesis by (simp add: go_quot_def)
  next
    case False
    then have "\<bar>sgn d\<bar> = 1" by (simp add: sgn_if)
    then show ?thesis using nn by (simp add: q abs_mult)
  qed
  have e: "(\<bar>d\<bar> div b) * b + \<bar>d\<bar> mod b = \<bar>d\<bar>" by simp
  have m0: "0 \<le> \<bar>d\<bar> mod b" using assms by simp
  have m1: "\<bar>d\<bar> mod b < b" using assms by simp
  have lo: "(\<bar>d\<bar> div b) * b \<le> \<bar>d\<bar>" using e m0 by linarith
  have ex: "(\<bar>d\<bar> div b + 1) * b = (\<bar>d\<bar> div b) * b + b" by (simp add: algebra_simps)
  have hi: "\<bar>d\<bar> < (\<bar>d\<bar> div b + 1) * b" using e m1 ex by linarith
  have s1: "0 \<le> d \<longrightarrow> 0 \<le> go_quot d b"
  proof
    assume "0 \<le> d"
    then have "0 \<le> sgn d" by (simp add: sgn_if)
    then show "0 \<le> go_quot d b" unfolding q using nn by (rule mult_nonneg_nonneg)
  qed
  have s2: "d \<le> 0 \<longrightarrow> go_quot d b \<le> 0"
  proof
    assume "d \<le> 0"
    then have "sgn d \<le> 0" by (simp add: sgn_if)
    then show "go_quot d b \<le> 0" unfolding q using nn by (rule mult_nonpos_nonneg)
  qed
  from a lo hi s1 s2 show ?thesis by simp
qed

lemma Sub_same: "Sub t t = 0"
  by (simp add: Sub_def saturate64_def split: option.splits)

lemma Sub_mono:
  "mono_ns c = Some a \<Longrightarrow> mono_ns s = Some b \<Longrightarrow> - (2 ^ 63) \<le> a - b \<Longrightarrow> a - b < 2 ^ 63 \<Longrightarrow>
   Sub c s = a - b"
  by (simp add: Sub_def saturate64_def)

lemma Sub_wall:
  "mono_ns c = None \<or> mono_ns s = None \<Longrightarrow> - (2 ^ 63) \<le> wall_ns c - wall_ns s \<Longrightarrow>
   wall_ns c - wall_ns s < 2 ^ 63 \<Longrightarrow> Sub c s = wall_ns c - wall_ns s"
  by (auto simp: Sub_def saturate64_def split: option.splits)

lemma example_timestamp:
  "Format (clock example_runtime 0) ApacheTime = ''04/Mar/2012:05:06:07 +0100''"
  by code_simp

lemma example_record_fields:
  "Host example_record = ''10.0.0.1''" "Indent example_record = ''-''"
  "Status example_record = 200" "Bytes example_record = 512"
  "Request example_record = ''GET /x HTTP/1.1''" "Referer example_record = ''-''"
  "UserAgent example_record = ''test-agent''"
  "RequestStarted example_record = clock example_runtime 0"
  "RequestCompleted example_record = clock example_runtime 1"
  by (simp_all add: example_record_def)

lemma example_elapsed:
  "Sub (clock example_runtime (Suc 0)) (clock example_runtime 0) = 2500000"
  "go_quot 2500000 1000000 = 2"
  "itoa 2 = ''2''"
  by (simp_all add: Sub_def saturate64_def example_runtime_def go_quot_def itoa_def
      nat_digits_small digit_char_def)

text \<open>
  Claim C8. The combined formatter, on a record with host \<^verbatim>\<open>10.0.0.1\<close>, indent \<^verbatim>\<open>-\<close>,
  status 200, 512 bytes, request line \<^verbatim>\<open>GET /x HTTP/1.1\<close>, referer \<^verbatim>\<open>-\<close> and user agent
  \<^verbatim>\<open>test-agent\<close>, gives exactly the line of the claim, where the text in brackets is the
  start time of the record under the layout \<^verbatim>\<open>ApacheTime\<close>: day, month name, year, hour,
  minute, second and numeric zone, as \<^verbatim>\<open>DD/Mon/YYYY:HH:MM:SS +ZZZZ\<close>.
\<close>

theorem combined_format_line:
  assumes "Host rec = ''10.0.0.1''" and "Indent rec = ''-''" and "Status rec = 200"
    and "Bytes rec = 512" and "Request rec = ''GET /x HTTP/1.1''" and "Referer rec = ''-''"
    and "UserAgent rec = ''test-agent''"
  shows
  \<open>CombinedFormat rec =
     ''10.0.0.1 - - ['' @ Format (RequestStarted rec) ApacheTime @
     ''] "GET /x HTTP/1.1" 200 512 "-" "test-agent"'' \<and>
   Format (RequestStarted rec) ApacheTime =
     appendInt (c_day (civil_of (RequestStarted rec))) 2 @ ''/'' @
     month_abbr (c_month (civil_of (RequestStarted rec))) @ ''/'' @
     appendInt (c_year (civil_of (RequestStarted rec))) 4 @ '':'' @
     appendInt (c_hour (civil_of (RequestStarted rec))) 2 @ '':'' @
     appendInt (c_minute (civil_of (RequestStarted rec))) 2 @ '':'' @
     appendInt (c_second (civil_of (RequestStarted rec))) 2 @ '' '' @
     num_zone (c_offset (civil_of (RequestStarted rec)))\<close>
proof
  show \<open>CombinedFormat rec =
     ''10.0.0.1 - - ['' @ Format (RequestStarted rec) ApacheTime @
     ''] "GET /x HTTP/1.1" 200 512 "-" "test-agent"''\<close>
    by (simp add: combined_text assms itoa_200 digits_512)
  show "Format (RequestStarted rec) ApacheTime =
     appendInt (c_day (civil_of (RequestStarted rec))) 2 @ ''/'' @
     month_abbr (c_month (civil_of (RequestStarted rec))) @ ''/'' @
     appendInt (c_year (civil_of (RequestStarted rec))) 4 @ '':'' @
     appendInt (c_hour (civil_of (RequestStarted rec))) 2 @ '':'' @
     appendInt (c_minute (civil_of (RequestStarted rec))) 2 @ '':'' @
     appendInt (c_second (civil_of (RequestStarted rec))) 2 @ '' '' @
     num_zone (c_offset (civil_of (RequestStarted rec)))"
    by (rule apache_layout)
qed

theorem combined_format_line_witness:
  \<open>CombinedFormat example_record =
     ''10.0.0.1 - - [04/Mar/2012:05:06:07 +0100] "GET /x HTTP/1.1" 200 512 "-" "test-agent"''\<close>
  using combined_format_line [of example_record, OF example_record_fields(1-7), THEN conjunct1]
  by (simp add: example_record_fields example_timestamp)

text \<open>
  Claim C7. The last field of the line of the performance formatter is the difference
  \<^verbatim>\<open>RequestCompleted.Sub(RequestStarted)\<close> in nanoseconds divided by \<open>10 ^ 6\<close> with
  truncation towards zero, in decimal, followed by \<^verbatim>\<open>ms\<close>. The quotient is the whole
  number of milliseconds in the difference: its magnitude times \<open>10 ^ 6\<close> is at most the
  magnitude of the difference and less than one millisecond short of it, and it has the
  sign of the difference. The difference is that of the monotonic readings when both
  times have one, of the instants otherwise, when it fits an \<^verbatim>\<open>int64\<close>. When the completion
  time is the start time the field is \<^verbatim>\<open>0ms\<close>.
\<close>

theorem perf_elapsed_is_truncated_milliseconds:
  \<open>PerfFormat rec =
     Host rec @ '' - '' @ Indent rec @ '' ['' @ Format (RequestStarted rec) ApacheTime @
     ''] "'' @ Request rec @ ''" '' @ itoa (Status rec) @ '' '' @ nat_digits (unat (Bytes rec)) @
     '' '' @ itoa (go_quot (Sub (RequestCompleted rec) (RequestStarted rec)) 1000000) @ ''ms'' \<and>
   \<bar>go_quot (Sub c s) 1000000\<bar> * 1000000 \<le> \<bar>Sub c s\<bar> \<and>
   \<bar>Sub c s\<bar> < (\<bar>go_quot (Sub c s) 1000000\<bar> + 1) * 1000000 \<and>
   (0 \<le> Sub c s \<longrightarrow> 0 \<le> go_quot (Sub c s) 1000000) \<and>
   (Sub c s \<le> 0 \<longrightarrow> go_quot (Sub c s) 1000000 \<le> 0) \<and>
   (\<forall>a b. mono_ns c = Some a \<and> mono_ns s = Some b \<and> - (2 ^ 63) \<le> a - b \<and> a - b < 2 ^ 63 \<longrightarrow>
      Sub c s = a - b) \<and>
   ((mono_ns c = None \<or> mono_ns s = None) \<and> - (2 ^ 63) \<le> wall_ns c - wall_ns s \<and>
      wall_ns c - wall_ns s < 2 ^ 63 \<longrightarrow> Sub c s = wall_ns c - wall_ns s) \<and>
   (RequestCompleted rec = RequestStarted rec \<longrightarrow>
      PerfFormat rec =
        Host rec @ '' - '' @ Indent rec @ '' ['' @ Format (RequestStarted rec) ApacheTime @
        ''] "'' @ Request rec @ ''" '' @ itoa (Status rec) @ '' '' @
        nat_digits (unat (Bytes rec)) @ '' 0ms'')\<close>
proof -
  have p: \<open>PerfFormat rec =
     Host rec @ '' - '' @ Indent rec @ '' ['' @ Format (RequestStarted rec) ApacheTime @
     ''] "'' @ Request rec @ ''" '' @ itoa (Status rec) @ '' '' @ nat_digits (unat (Bytes rec)) @
     '' '' @ itoa (go_quot (Sub (RequestCompleted rec) (RequestStarted rec)) 1000000) @ ''ms''\<close>
    by (simp add: perf_text Nanoseconds_def)
  have z: \<open>RequestCompleted rec = RequestStarted rec \<longrightarrow>
      PerfFormat rec =
        Host rec @ '' - '' @ Indent rec @ '' ['' @ Format (RequestStarted rec) ApacheTime @
        ''] "'' @ Request rec @ ''" '' @ itoa (Status rec) @ '' '' @
        nat_digits (unat (Bytes rec)) @ '' 0ms''\<close>
    by (simp add: p Sub_same go_quot_def itoa_0)
  have t: "\<bar>go_quot (Sub c s) 1000000\<bar> * 1000000 \<le> \<bar>Sub c s\<bar> \<and>
      \<bar>Sub c s\<bar> < (\<bar>go_quot (Sub c s) 1000000\<bar> + 1) * 1000000 \<and>
      (0 \<le> Sub c s \<longrightarrow> 0 \<le> go_quot (Sub c s) 1000000) \<and>
      (Sub c s \<le> 0 \<longrightarrow> go_quot (Sub c s) 1000000 \<le> 0)"
    by (rule go_quot_truncates) simp
  have m: "\<forall>a b. mono_ns c = Some a \<and> mono_ns s = Some b \<and> - (2 ^ 63) \<le> a - b \<and> a - b < 2 ^ 63 \<longrightarrow>
      Sub c s = a - b"
    using Sub_mono by blast
  have w: "(mono_ns c = None \<or> mono_ns s = None) \<and> - (2 ^ 63) \<le> wall_ns c - wall_ns s \<and>
      wall_ns c - wall_ns s < 2 ^ 63 \<longrightarrow> Sub c s = wall_ns c - wall_ns s"
    using Sub_wall by blast
  from p t m w z show ?thesis by (intro conjI) blast+
qed

theorem perf_elapsed_is_truncated_milliseconds_witness:
  \<open>PerfFormat example_record =
     ''10.0.0.1 - - [04/Mar/2012:05:06:07 +0100] "GET /x HTTP/1.1" 200 512 2ms'' \<and>
   PerfFormat (example_record\<lparr>RequestCompleted := RequestStarted example_record\<rparr>) =
     ''10.0.0.1 - - [04/Mar/2012:05:06:07 +0100] "GET /x HTTP/1.1" 200 512 0ms'' \<and>
   Sub (clock example_runtime 1) (clock example_runtime 0) = 2500000 \<and>
   0 \<le> go_quot (Sub (clock example_runtime 1) (clock example_runtime 0)) 1000000 \<and>
   Sub \<lparr>wall_ns = 0, mono_ns = None, zone_offset = 0\<rparr>
       \<lparr>wall_ns = 1500000, mono_ns = None, zone_offset = 0\<rparr> = - 1500000 \<and>
   go_quot (Sub \<lparr>wall_ns = 0, mono_ns = None, zone_offset = 0\<rparr>
                \<lparr>wall_ns = 1500000, mono_ns = None, zone_offset = 0\<rparr>) 1000000 \<le> 0\<close>
proof -
  let ?c = "clock example_runtime 1" and ?s = "clock example_runtime 0"
  let ?u = "\<lparr>wall_ns = 0, mono_ns = None, zone_offset = 0\<rparr>"
  let ?v = "\<lparr>wall_ns = 1500000, mono_ns = None, zone_offset = 0\<rparr>"
  let ?z = "example_record\<lparr>RequestCompleted := RequestStarted example_record\<rparr>"
  note t1 = perf_elapsed_is_truncated_milliseconds [of example_record ?c ?s]
  note t2 = perf_elapsed_is_truncated_milliseconds [of ?z ?u ?v]
  have mono: "mono_ns ?c = Some 2500000 \<and> mono_ns ?s = Some 0 \<and>
      - (2 ^ 63) \<le> (2500000 :: int) - 0 \<and> (2500000 :: int) - 0 < 2 ^ 63"
    by (simp add: example_runtime_def)
  have c3: "Sub ?c ?s = 2500000"
    using t1 [THEN conjunct2, THEN conjunct2, THEN conjunct2, THEN conjunct2, THEN conjunct2,
        THEN conjunct1, THEN spec, of "2500000", THEN spec, of 0] mono
    by simp
  have c4: "0 \<le> go_quot (Sub ?c ?s) 1000000"
    using t1 [THEN conjunct2, THEN conjunct2, THEN conjunct2, THEN conjunct1] c3 by simp
  have c1: \<open>PerfFormat example_record =
     ''10.0.0.1 - - [04/Mar/2012:05:06:07 +0100] "GET /x HTTP/1.1" 200 512 2ms''\<close>
    using t1 [THEN conjunct1]
    by (simp add: example_record_fields example_timestamp example_elapsed itoa_200 digits_512)
  have c2: \<open>PerfFormat ?z =
     ''10.0.0.1 - - [04/Mar/2012:05:06:07 +0100] "GET /x HTTP/1.1" 200 512 0ms''\<close>
    using t2 [THEN conjunct2, THEN conjunct2, THEN conjunct2, THEN conjunct2, THEN conjunct2,
        THEN conjunct2, THEN conjunct2]
    by (simp add: example_record_fields example_timestamp itoa_200 digits_512)
  have c5: "Sub ?u ?v = - 1500000"
    using t2 [THEN conjunct2, THEN conjunct2, THEN conjunct2, THEN conjunct2, THEN conjunct2,
        THEN conjunct2, THEN conjunct1]
    by simp
  have c6: "go_quot (Sub ?u ?v) 1000000 \<le> 0"
    using t2 [THEN conjunct2, THEN conjunct2, THEN conjunct2, THEN conjunct2, THEN conjunct1] c5
    by simp
  from c1 c2 c3 c4 c5 c6 show ?thesis by (intro conjI)
qed

text \<open>
  Claim C10. In both formatters the text in brackets is the start time of the record. The
  line of the combined formatter does not depend on the completion time at all. The line
  of the performance formatter depends on it only through the count of milliseconds at
  the end: two completion times that give the same count give the same line.
\<close>

theorem formatters_print_the_start_time:
  \<open>CombinedFormat (rec\<lparr>RequestCompleted := t\<rparr>) = CombinedFormat rec \<and>
   CombinedFormat rec =
     Host rec @ '' - '' @ Indent rec @ '' ['' @ Format (RequestStarted rec) ApacheTime @
     ''] "'' @ Request rec @ ''" '' @ itoa (Status rec) @ '' '' @ nat_digits (unat (Bytes rec)) @
     '' "'' @ Referer rec @ ''" "'' @ UserAgent rec @ ''"'' \<and>
   PerfFormat rec =
     Host rec @ '' - '' @ Indent rec @ '' ['' @ Format (RequestStarted rec) ApacheTime @
     ''] "'' @ Request rec @ ''" '' @ itoa (Status rec) @ '' '' @ nat_digits (unat (Bytes rec)) @
     '' '' @ itoa (go_quot (Nanoseconds (Sub (RequestCompleted rec) (RequestStarted rec))) 1000000) @
     ''ms'' \<and>
   (go_quot (Nanoseconds (Sub t (RequestStarted rec))) 1000000 =
    go_quot (Nanoseconds (Sub (RequestCompleted rec) (RequestStarted rec))) 1000000 \<longrightarrow>
      PerfFormat (rec\<lparr>RequestCompleted := t\<rparr>) = PerfFormat rec)\<close>
proof (intro conjI impI)
  show "CombinedFormat (rec\<lparr>RequestCompleted := t\<rparr>) = CombinedFormat rec"
    by (simp add: CombinedFormat_def)
  show \<open>CombinedFormat rec =
     Host rec @ '' - '' @ Indent rec @ '' ['' @ Format (RequestStarted rec) ApacheTime @
     ''] "'' @ Request rec @ ''" '' @ itoa (Status rec) @ '' '' @ nat_digits (unat (Bytes rec)) @
     '' "'' @ Referer rec @ ''" "'' @ UserAgent rec @ ''"''\<close>
    by (rule combined_text)
  show \<open>PerfFormat rec =
     Host rec @ '' - '' @ Indent rec @ '' ['' @ Format (RequestStarted rec) ApacheTime @
     ''] "'' @ Request rec @ ''" '' @ itoa (Status rec) @ '' '' @ nat_digits (unat (Bytes rec)) @
     '' '' @ itoa (go_quot (Nanoseconds (Sub (RequestCompleted rec) (RequestStarted rec))) 1000000) @
     ''ms''\<close>
    by (rule perf_text)
  show "PerfFormat (rec\<lparr>RequestCompleted := t\<rparr>) = PerfFormat rec"
    if "go_quot (Nanoseconds (Sub t (RequestStarted rec))) 1000000 =
        go_quot (Nanoseconds (Sub (RequestCompleted rec) (RequestStarted rec))) 1000000"
    using that by (simp add: PerfFormat_def)
qed

theorem formatters_print_the_start_time_witness:
  "PerfFormat (example_record\<lparr>RequestCompleted :=
       \<lparr>wall_ns = 1330833967002999999, mono_ns = Some 2999999, zone_offset = 3600\<rparr>\<rparr>) =
     PerfFormat example_record \<and>
   \<lparr>wall_ns = 1330833967002999999, mono_ns = Some 2999999, zone_offset = 3600\<rparr> \<noteq>
     RequestCompleted example_record"
proof -
  let ?t = "\<lparr>wall_ns = 1330833967002999999, mono_ns = Some 2999999, zone_offset = 3600\<rparr>"
  have h: "go_quot (Nanoseconds (Sub ?t (RequestStarted example_record))) 1000000 =
           go_quot (Nanoseconds (Sub (RequestCompleted example_record)
             (RequestStarted example_record))) 1000000"
    by (simp add: example_record_fields Sub_def saturate64_def example_runtime_def go_quot_def
        Nanoseconds_def)
  have ne: "?t \<noteq> RequestCompleted example_record"
    by (simp add: example_record_fields example_runtime_def)
  from formatters_print_the_start_time [where rec = example_record and t = ?t, THEN conjunct2, THEN conjunct2,
      THEN conjunct2] h
  have "PerfFormat (example_record\<lparr>RequestCompleted := ?t\<rparr>) = PerfFormat example_record"
    by (rule mp)
  with ne show ?thesis by (intro conjI)
qed

subsection \<open>The queues of the log sinks\<close>

lemma send_all_caps: "map chan_cap (fst (send_all chs x)) = map chan_cap chs"
  by (induction chs) (auto simp: chan_send_def split: option.splits prod.splits)

lemma send_all_blocks:
  assumes "\<forall>c\<in>set pre. length (chan_buf c) < chan_cap c"
    and "\<not> length (chan_buf ch) < chan_cap ch"
  shows "send_all (pre @ ch # post) x =
           (map (\<lambda>c. c\<lparr>chan_buf := chan_buf c @ [x]\<rparr>) pre @ ch # post, True)"
  using assms by (induction pre) (simp_all add: chan_send_def)

lemma send_all_room:
  assumes "\<forall>c\<in>set chs. length (chan_buf c) < chan_cap c"
  shows "send_all chs x = (map (\<lambda>c. c\<lparr>chan_buf := chan_buf c @ [x]\<rparr>) chs, False)"
  using assms by (induction chs) (simp_all add: chan_send_def)

lemma ServeHTTP_caps:
  "map chan_cap (Loggers (the_app (ServeHTTP W rt app k w r))) = map chan_cap (Loggers app)"
proof -
  obtain e rec1 where rh: "run_handler W (Handler app r) (new_record rt k w r) = (e, rec1)"
    by (cases "run_handler W (Handler app r) (new_record rt k w r)")
  show ?thesis
  proof (cases e)
    case None
    with rh have "run_handler W (Handler app r) (new_record rt k w r) = (None, rec1)" by simp
    from ServeHTTP_return [OF this] show ?thesis by (simp add: send_all_caps)
  next
    case (Some v)
    with rh have "run_handler W (Handler app r) (new_record rt k w r) = (Some v, rec1)" by simp
    from ServeHTTP_panic [OF this] show ?thesis by (simp add: HandlePanic_Loggers)
  qed
qed

lemma serve_n_one_sink:
  assumes ret: "\<forall>k. fst (run_handler W (h r) (new_record rt k w r)) = None"
    and app: "Handler app = h" "Loggers app = [\<lparr>chan_cap = 1000, chan_buf = []\<rparr>]"
    and n: "n \<le> 1000"
  shows "Handler (serve_n W rt w r n app) = h \<and>
         (\<exists>buf. Loggers (serve_n W rt w r n app) = [\<lparr>chan_cap = 1000, chan_buf = buf\<rparr>] \<and>
                length buf = n)"
  using n
proof (induction n)
  case 0
  then show ?case using app by simp
next
  case (Suc n)
  let ?a = "serve_n W rt w r n app"
  from Suc have ih: "Handler ?a = h"
    and "\<exists>buf. Loggers ?a = [\<lparr>chan_cap = 1000, chan_buf = buf\<rparr>] \<and> length buf = n" by simp_all
  then obtain buf where buf: "Loggers ?a = [\<lparr>chan_cap = 1000, chan_buf = buf\<rparr>]" "length buf = n"
    by blast
  obtain e rec1 where rh: "run_handler W (Handler ?a r) (new_record rt (2 * n) w r) = (e, rec1)"
    by (cases "run_handler W (Handler ?a r) (new_record rt (2 * n) w r)")
  with ret ih have "e = None" by (metis fst_conv)
  with rh have rh': "run_handler W (Handler ?a r) (new_record rt (2 * n) w r) = (None, rec1)"
    by simp
  from Suc.prems buf(2) have room: "length buf < 1000" by simp
  show ?case
    using ServeHTTP_return [OF rh'] buf room ih
    by (simp add: chan_send_def)
qed

lemma ServeHTTP_full_sink:
  assumes "run_handler W (Handler app r) (new_record rt k w r) = (None, rec1)"
    and "Loggers app = pre @ ch # post"
    and "\<forall>c\<in>set pre. length (chan_buf c) < chan_cap c"
    and "chan_cap ch = 1000" and "length (chan_buf ch) = 1000"
  shows "blocked (ServeHTTP W rt app k w r) \<and>
         Loggers (the_app (ServeHTTP W rt app k w r)) =
           map (\<lambda>c. c\<lparr>chan_buf := chan_buf c @ [rec1\<lparr>RequestCompleted := clock rt (Suc k)\<rparr>]\<rparr>) pre
             @ ch # post"
proof -
  have full: "\<not> length (chan_buf ch) < chan_cap ch" using assms(4,5) by simp
  show ?thesis
    using ServeHTTP_return [OF assms(1)] send_all_blocks [OF assms(3) full]
    by (simp add: assms(2))
qed

lemma full_channel_after_receive:
  assumes "chan_cap ch = 1000" and "length (chan_buf ch) = 1000"
  shows "chan_send ch x = None \<and>
         (\<exists>ch' snk'. sink_step (ch, snk) = Some (ch', snk') \<and> chan_cap ch' = 1000 \<and>
            length (chan_buf ch') = 999 \<and>
            chan_send ch' x = Some (ch'\<lparr>chan_buf := chan_buf ch' @ [x]\<rparr>))"
proof -
  from assms(2) obtain y ys where ys: "chan_buf ch = y # ys" by (cases "chan_buf ch") auto
  with assms(2) have l: "length ys = 999" by simp
  have "chan_send ch x = None" using assms by (simp add: chan_send_def)
  moreover have "sink_step (ch, snk) =
      Some (ch\<lparr>chan_buf := ys\<rparr>, snk\<lparr>sink_printed := sink_printed snk @ [sink_format snk y]\<rparr>)"
    by (simp add: sink_step_def chan_recv_def ys)
  moreover have "chan_send (ch\<lparr>chan_buf := ys\<rparr>) x =
      Some (ch\<lparr>chan_buf := ys\<rparr>\<lparr>chan_buf := chan_buf (ch\<lparr>chan_buf := ys\<rparr>) @ [x]\<rparr>)"
    using assms(1) l by (simp add: chan_send_def)
  ultimately show ?thesis using assms(1) l by simp
qed

text \<open>
  Claim C9. \<^verbatim>\<open>AddLogger\<close> gives every log sink a queue of capacity 1000, and serving
  requests never changes a capacity. With one sink that nobody drains, the first 1000
  requests are enqueued without blocking and the next one blocks: \<^verbatim>\<open>ServeHTTP\<close> is
  suspended in the send, the queue still holds its 1000 records, and nothing was dropped
  or returned as an error. In general a request blocks at the first full queue, after it
  has enqueued the record on the sinks before it. Once the goroutine of the sink has
  taken one record there is room, and the send appends the record.
\<close>

theorem full_sink_queue_blocks_the_producer:
  "Loggers (fst (AddLogger app f lg)) = Loggers app @ [\<lparr>chan_cap = 1000, chan_buf = []\<rparr>] \<and>
   map chan_cap (Loggers (the_app (ServeHTTP W rt app k w r))) = map chan_cap (Loggers app) \<and>
   ((\<forall>j. fst (run_handler W (Handler app r) (new_record rt j w r)) = None) \<and> Loggers app = [] \<longrightarrow>
      (\<forall>n<1000. \<not> blocked (ServeHTTP W rt
          (serve_n W rt w r n (fst (AddLogger app f lg))) (2 * n) w r)) \<and>
      blocked (ServeHTTP W rt (serve_n W rt w r 1000 (fst (AddLogger app f lg))) 2000 w r) \<and>
      map (length \<circ> chan_buf) (Loggers (the_app (ServeHTTP W rt
          (serve_n W rt w r 1000 (fst (AddLogger app f lg))) 2000 w r))) = [1000]) \<and>
   (run_handler W (Handler app r) (new_record rt k w r) = (None, hrec) \<and>
    Loggers app = pre @ ch # post \<and> (\<forall>c\<in>set pre. length (chan_buf c) < chan_cap c) \<and>
    chan_cap ch = 1000 \<and> length (chan_buf ch) = 1000 \<longrightarrow>
      blocked (ServeHTTP W rt app k w r) \<and>
      Loggers (the_app (ServeHTTP W rt app k w r)) =
        map (\<lambda>c. c\<lparr>chan_buf := chan_buf c @ [hrec\<lparr>RequestCompleted := clock rt (Suc k)\<rparr>]\<rparr>) pre
          @ ch # post) \<and>
   (chan_cap ch = 1000 \<and> length (chan_buf ch) = 1000 \<longrightarrow>
      chan_send ch x = None \<and>
      (\<exists>ch' snk'. sink_step (ch, snk) = Some (ch', snk') \<and> chan_cap ch' = 1000 \<and>
         length (chan_buf ch') = 999 \<and>
         chan_send ch' x = Some (ch'\<lparr>chan_buf := chan_buf ch' @ [x]\<rparr>)))"
proof (intro conjI impI)
  show "Loggers (fst (AddLogger app f lg)) = Loggers app @ [\<lparr>chan_cap = 1000, chan_buf = []\<rparr>]"
    by (simp add: AddLogger_def Let_def make_chan_def)
  show "map chan_cap (Loggers (the_app (ServeHTTP W rt app k w r))) = map chan_cap (Loggers app)"
    by (rule ServeHTTP_caps)
next
  assume a: "(\<forall>j. fst (run_handler W (Handler app r) (new_record rt j w r)) = None) \<and>
             Loggers app = []"
  let ?app1 = "fst (AddLogger app f lg)"
  have h1: "Handler ?app1 = Handler app" by (simp add: AddLogger_def Let_def)
  have l1: "Loggers ?app1 = [\<lparr>chan_cap = 1000, chan_buf = []\<rparr>]"
    using a by (simp add: AddLogger_def Let_def make_chan_def)
  from a have ret: "\<forall>j. fst (run_handler W (Handler app r) (new_record rt j w r)) = None" by blast
  have inv: "Handler (serve_n W rt w r n ?app1) = Handler app \<and>
      (\<exists>buf. Loggers (serve_n W rt w r n ?app1) = [\<lparr>chan_cap = 1000, chan_buf = buf\<rparr>] \<and>
             length buf = n)" if "n \<le> 1000" for n
    by (rule serve_n_one_sink [OF ret h1 l1 that])
  have run: "\<exists>hrec. run_handler W (Handler (serve_n W rt w r n ?app1) r) (new_record rt j w r) =
      (None, hrec)" if "n \<le> 1000" for n j
  proof -
    have "fst (run_handler W (Handler (serve_n W rt w r n ?app1) r) (new_record rt j w r)) = None"
      using inv [OF that] ret by simp
    then show ?thesis
      by (cases "run_handler W (Handler (serve_n W rt w r n ?app1) r) (new_record rt j w r)") simp
  qed
  show "\<forall>n<1000. \<not> blocked (ServeHTTP W rt (serve_n W rt w r n ?app1) (2 * n) w r)"
  proof (intro allI impI)
    fix n :: nat
    assume n: "n < 1000"
    then have le: "n \<le> 1000" by simp
    from inv [OF le] obtain buf where
      buf: "Loggers (serve_n W rt w r n ?app1) = [\<lparr>chan_cap = 1000, chan_buf = buf\<rparr>]"
      "length buf = n" by blast
    from run [OF le, of "2 * n"] obtain hrec where
      rh: "run_handler W (Handler (serve_n W rt w r n ?app1) r) (new_record rt (2 * n) w r) =
           (None, hrec)" by blast
    show "\<not> blocked (ServeHTTP W rt (serve_n W rt w r n ?app1) (2 * n) w r)"
      using ServeHTTP_return [OF rh] buf n by (simp add: chan_send_def)
  qed
  from inv [of 1000] obtain buf where
    buf: "Loggers (serve_n W rt w r 1000 ?app1) = [\<lparr>chan_cap = 1000, chan_buf = buf\<rparr>]"
    "length buf = 1000" by auto
  from run [of 1000 2000] obtain hrec where
    rh: "run_handler W (Handler (serve_n W rt w r 1000 ?app1) r) (new_record rt 2000 w r) =
         (None, hrec)" by auto
  have full: "blocked (ServeHTTP W rt (serve_n W rt w r 1000 ?app1) 2000 w r) \<and>
      Loggers (the_app (ServeHTTP W rt (serve_n W rt w r 1000 ?app1) 2000 w r)) =
        [\<lparr>chan_cap = 1000, chan_buf = buf\<rparr>]"
    using ServeHTTP_full_sink [OF rh, of "[]" "\<lparr>chan_cap = 1000, chan_buf = buf\<rparr>" "[]"] buf
    by simp
  show "blocked (ServeHTTP W rt (serve_n W rt w r 1000 ?app1) 2000 w r)"
    using full by blast
  show "map (length \<circ> chan_buf) (Loggers (the_app (ServeHTTP W rt
          (serve_n W rt w r 1000 ?app1) 2000 w r))) = [1000]"
    using full buf(2) by simp
next
  assume a: "run_handler W (Handler app r) (new_record rt k w r) = (None, hrec) \<and>
    Loggers app = pre @ ch # post \<and> (\<forall>c\<in>set pre. length (chan_buf c) < chan_cap c) \<and>
    chan_cap ch = 1000 \<and> length (chan_buf ch) = 1000"
  then have b: "blocked (ServeHTTP W rt app k w r) \<and>
      Loggers (the_app (ServeHTTP W rt app k w r)) =
        map (\<lambda>c. c\<lparr>chan_buf := chan_buf c @ [hrec\<lparr>RequestCompleted := clock rt (Suc k)\<rparr>]\<rparr>) pre
          @ ch # post"
    by (intro ServeHTTP_full_sink) blast+
  show "blocked (ServeHTTP W rt app k w r)" using b by blast
  show "Loggers (the_app (ServeHTTP W rt app k w r)) =
        map (\<lambda>c. c\<lparr>chan_buf := chan_buf c @ [hrec\<lparr>RequestCompleted := clock rt (Suc k)\<rparr>]\<rparr>) pre
          @ ch # post" using b by blast
next
  assume a: "chan_cap ch = 1000 \<and> length (chan_buf ch) = 1000"
  then have c: "chan_send ch x = None \<and>
      (\<exists>ch' snk'. sink_step (ch, snk) = Some (ch', snk') \<and> chan_cap ch' = 1000 \<and>
         length (chan_buf ch') = 999 \<and>
         chan_send ch' x = Some (ch'\<lparr>chan_buf := chan_buf ch' @ [x]\<rparr>))"
    by (intro full_channel_after_receive) blast+
  show "chan_send ch x = None" using c by blast
  show "\<exists>ch' snk'. sink_step (ch, snk) = Some (ch', snk') \<and> chan_cap ch' = 1000 \<and>
         length (chan_buf ch') = 999 \<and>
         chan_send ch' x = Some (ch'\<lparr>chan_buf := chan_buf ch' @ [x]\<rparr>)" using c by blast
qed

theorem full_sink_queue_blocks_the_producer_witness:
  "Loggers (fst (AddLogger (NewApp hello_handler False :: (int option \<times> string) App)
      CombinedFormat [])) = [\<lparr>chan_cap = 1000, chan_buf = []\<rparr>] \<and>
   \<not> blocked (ServeHTTP mem_writer example_runtime
      (serve_n mem_writer example_runtime (None, []) example_request 999
         (fst (AddLogger (NewApp hello_handler False) CombinedFormat [])))
      (2 * 999) (None, []) example_request) \<and>
   blocked (ServeHTTP mem_writer example_runtime
      (serve_n mem_writer example_runtime (None, []) example_request 1000
         (fst (AddLogger (NewApp hello_handler False) CombinedFormat [])))
      2000 (None, []) example_request) \<and>
   blocked (ServeHTTP mem_writer example_runtime
      ((NewApp hello_handler False)\<lparr>Loggers :=
          [\<lparr>chan_cap = 1000, chan_buf = []\<rparr>,
           \<lparr>chan_cap = 1000, chan_buf = replicate 1000
              (new_record example_runtime 0 (None, []) example_request)\<rparr>,
           \<lparr>chan_cap = 1000, chan_buf = []\<rparr>]\<rparr>)
      0 (None, []) example_request) \<and>
   map (length \<circ> chan_buf) (Loggers (the_app (ServeHTTP mem_writer example_runtime
      ((NewApp hello_handler False)\<lparr>Loggers :=
          [\<lparr>chan_cap = 1000, chan_buf = []\<rparr>,
           \<lparr>chan_cap = 1000, chan_buf = replicate 1000
              (new_record example_runtime 0 (None, []) example_request)\<rparr>,
           \<lparr>chan_cap = 1000, chan_buf = []\<rparr>]\<rparr>)
      0 (None, []) example_request))) = [1, 1000, 0] \<and>
   chan_send \<lparr>chan_cap = 1000, chan_buf = replicate 1000
       (new_record example_runtime 0 ((None, []) :: int option \<times> string) example_request)\<rparr>
     (new_record example_runtime 0 (None, []) example_request) = None"
proof -
  let ?app = "NewApp hello_handler False :: (int option \<times> string) App"
  let ?full = "\<lparr>chan_cap = 1000, chan_buf = replicate 1000
                  (new_record example_runtime 0 ((None, []) :: int option \<times> string) example_request)\<rparr>"
  let ?empty = "\<lparr>chan_cap = 1000, chan_buf = []\<rparr> :: (int option \<times> string) LogRecord chan"
  let ?app3 = "?app\<lparr>Loggers := [?empty, ?full, ?empty]\<rparr>"
  let ?rec0 = "new_record example_runtime 0 ((None, []) :: int option \<times> string) example_request"
  let ?rec1 = "snd (Write mem_writer (snd (Write mem_writer ?rec0 ''hello '')) ''world'')"
  have hh: "Handler ?app = hello_handler" by (simp add: NewApp_def)
  have hh3: "Handler ?app3 = hello_handler" by (simp add: NewApp_def)
  have ret: "\<forall>j. fst (run_handler mem_writer (Handler ?app example_request)
                 (new_record example_runtime j (None, []) example_request)) = None"
    by (simp add: hello_handler_run_any [OF hh])
  have nl: "Loggers ?app = []" by (simp add: NewApp_def)
  note t = full_sink_queue_blocks_the_producer
    [where app = ?app and W = mem_writer and rt = example_runtime and w = "(None, [])"
       and r = example_request and f = CombinedFormat and lg = "[]"]
  have c1: "Loggers (fst (AddLogger ?app CombinedFormat [])) = [?empty]"
    using t [THEN conjunct1] nl by simp
  from t [THEN conjunct2, THEN conjunct2, THEN conjunct1] ret nl
  have many: "(\<forall>n<1000. \<not> blocked (ServeHTTP mem_writer example_runtime
          (serve_n mem_writer example_runtime (None, []) example_request n
             (fst (AddLogger ?app CombinedFormat []))) (2 * n) (None, []) example_request)) \<and>
      blocked (ServeHTTP mem_writer example_runtime
          (serve_n mem_writer example_runtime (None, []) example_request 1000
             (fst (AddLogger ?app CombinedFormat []))) 2000 (None, []) example_request)"
    by blast
  have c2: "\<not> blocked (ServeHTTP mem_writer example_runtime
      (serve_n mem_writer example_runtime (None, []) example_request 999
         (fst (AddLogger ?app CombinedFormat []))) (2 * 999) (None, []) example_request)"
    using many [THEN conjunct1, THEN spec, of 999] by simp
  have c3: "blocked (ServeHTTP mem_writer example_runtime
      (serve_n mem_writer example_runtime (None, []) example_request 1000
         (fst (AddLogger ?app CombinedFormat []))) 2000 (None, []) example_request)"
    using many by blast
  note t3 = full_sink_queue_blocks_the_producer
    [where app = ?app3 and W = mem_writer and rt = example_runtime and w = "(None, [])"
       and r = example_request and k = 0 and hrec = ?rec1 and pre = "[?empty]" and ch = ?full
       and post = "[?empty]"]
  have h3: "run_handler mem_writer (Handler ?app3 example_request) ?rec0 = (None, ?rec1) \<and>
      Loggers ?app3 = [?empty] @ ?full # [?empty] \<and>
      (\<forall>c\<in>set [?empty]. length (chan_buf c) < chan_cap c) \<and>
      chan_cap ?full = 1000 \<and> length (chan_buf ?full) = 1000"
    using hello_handler_run_any [OF hh3, of ?rec0] by simp
  from t3 [THEN conjunct2, THEN conjunct2, THEN conjunct2, THEN conjunct1] h3
  have b3: "blocked (ServeHTTP mem_writer example_runtime ?app3 0 (None, []) example_request) \<and>
      Loggers (the_app (ServeHTTP mem_writer example_runtime ?app3 0 (None, []) example_request)) =
        map (\<lambda>c. c\<lparr>chan_buf := chan_buf c @
               [?rec1\<lparr>RequestCompleted := clock example_runtime (Suc 0)\<rparr>]\<rparr>) [?empty]
          @ ?full # [?empty]"
    by (rule mp)
  have c4: "blocked (ServeHTTP mem_writer example_runtime ?app3 0 (None, []) example_request)"
    using b3 by blast
  have c5: "map (length \<circ> chan_buf) (Loggers (the_app (ServeHTTP mem_writer example_runtime
      ?app3 0 (None, []) example_request))) = [1, 1000, 0]"
    using b3 by simp
  note t6 = full_sink_queue_blocks_the_producer
    [where ch = ?full and x = ?rec0 and app = ?app and W = mem_writer
       and snk = "\<lparr>sink_format = CombinedFormat, sink_printed = []\<rparr>"]
  have h6: "chan_cap ?full = 1000 \<and> length (chan_buf ?full) = 1000" by simp
  from t6 [THEN conjunct2, THEN conjunct2, THEN conjunct2, THEN conjunct2] h6
  have c6: "chan_send ?full ?rec0 = None" by (rule mp [THEN conjunct1])
  from c1 c2 c3 c4 c5 c6 show ?thesis by (intro conjI)
qed

end
